theory Spec2Isabelle
  imports Main "HOL-Library.Sublist"
begin

section \<open>Career page discovery: the data model\<close>

text \<open>
  The program is \<^verbatim>\<open>src/companies_job_links_find.py\<close>, class \<^verbatim>\<open>CareerPageFinder\<close>.
  Its two core methods, \<^verbatim>\<open>search_company_website\<close> and \<^verbatim>\<open>find_career_page\<close>, talk to
  the network through a \<^verbatim>\<open>requests.Session\<close>, parse HTML with BeautifulSoup and
  resolve links with \<^verbatim>\<open>urllib.parse.urljoin\<close>. None of these libraries belongs to the
  repository, so they are parameters of the model, collected in the record \<open>env\<close>;
  every call that can raise in Python returns a sum here, \<open>Inl\<close> holding the exception.

  Only exceptions derived from Python's \<^verbatim>\<open>Exception\<close> are modelled: they are what the
  libraries raise, and what \<^verbatim>\<open>except Exception\<close> catches. Console output
  (\<^verbatim>\<open>print\<close>) is not modelled.
\<close>

datatype exn = Timeout | ConnectionError | MissingSchema | ParserRejected | ValueError | KeyError

text \<open>A \<^verbatim>\<open>requests.Response\<close>, reduced to the two attributes the program reads.\<close>

record response =
  status_code :: int
  content :: string

text \<open>
  An \<^verbatim>\<open>a\<close> element of a parsed document: its \<^verbatim>\<open>href\<close> attribute if it has one, the
  tokens of its \<^verbatim>\<open>class\<close> attribute, and the text strings among its descendants, in
  document order. \<^verbatim>\<open><a href=/team>Join <b>Us</b> Today</a>\<close> has the three strings
  \<^verbatim>\<open>"Join "\<close>, \<^verbatim>\<open>"Us"\<close> and \<^verbatim>\<open>" Today"\<close>; what a reader sees is their concatenation.
\<close>

record anchor =
  attr_href :: "string option"
  attr_class :: "string list"
  all_strings :: "string list"

text \<open>
  The libraries and the network.
  \<^item> \<open>session_get url\<close> is \<^verbatim>\<open>self.session.get(url, timeout=10)\<close>;
  \<^item> \<open>session_head url\<close> is \<^verbatim>\<open>self.session.head(url, timeout=5)\<close>;
  \<^item> \<open>html_anchors body\<close> is \<^verbatim>\<open>BeautifulSoup(body, 'html.parser')\<close>, seen through the only
    query the program makes of it: the document's \<^verbatim>\<open>a\<close> elements, in document order;
  \<^item> \<open>urljoin base ref\<close> is \<^verbatim>\<open>urllib.parse.urljoin\<close> (it raises \<^verbatim>\<open>ValueError\<close> on a
    malformed authority);
  \<^item> \<open>str_lower s\<close> is \<^verbatim>\<open>s.lower()\<close>.
\<close>

record env =
  session_get :: "string \<Rightarrow> exn + response"
  session_head :: "string \<Rightarrow> exn + response"
  html_anchors :: "string \<Rightarrow> exn + anchor list"
  urljoin :: "string \<Rightarrow> string \<Rightarrow> exn + string"
  str_lower :: "string \<Rightarrow> string"

text \<open>The HTTP requests a call issues, in order.\<close>

datatype request = GET string | HEAD string

text \<open>
  The dictionary \<^verbatim>\<open>find_career_page\<close> returns. Its key \<^verbatim>\<open>main_website\<close> is a field of
  this record, so the method's variable of that name is written \<open>website\<close> below.
\<close>

record discovery =
  company :: string
  main_website :: string
  career_urls :: "string list"

section \<open>Python primitives\<close>

text \<open>\<^verbatim>\<open>needle in haystack\<close> on strings: \<open>needle\<close> occurs as a contiguous substring.\<close>

fun py_in :: "string \<Rightarrow> string \<Rightarrow> bool" where
  "py_in needle [] = (needle = [])"
| "py_in needle (c # haystack) = (prefix needle (c # haystack) \<or> py_in needle haystack)"

text \<open>\<^verbatim>\<open>s.rstrip(c)\<close> for a single character \<open>c\<close>: all trailing copies of \<open>c\<close> removed.\<close>

definition rstrip :: "char \<Rightarrow> string \<Rightarrow> string" where
  "rstrip c s = rev (dropWhile (\<lambda>x. x = c) (rev s))"

text \<open>Truthiness of a value that is \<^verbatim>\<open>None\<close> or a string: \<^verbatim>\<open>None\<close> and \<^verbatim>\<open>""\<close> are falsy.\<close>

fun truthy :: "string option \<Rightarrow> bool" where
  "truthy None = False"
| "truthy (Some s) = (s \<noteq> [])"

text \<open>
  \<^verbatim>\<open>s.strip()\<close>: leading and trailing whitespace removed. The characters are those
  \<^verbatim>\<open>str.isspace\<close> accepts among the code points below 256.
\<close>

definition is_space :: "char \<Rightarrow> bool" where
  "is_space c =
     (c \<in> set [CHR 0x09, CHR 0x0A, CHR 0x0B, CHR 0x0C, CHR 0x0D, CHR 0x1C, CHR 0x1D, CHR 0x1E,
               CHR 0x1F, CHR 0x20, CHR 0x85, CHR 0xA0])"

definition strip :: "string \<Rightarrow> string" where
  "strip s = dropWhile is_space (rev (dropWhile is_space (rev s)))"

text \<open>
  \<^verbatim>\<open>link.get_text(strip=True)\<close>, as BeautifulSoup computes it: every string of the element
  is stripped, the empty ones are dropped, and the rest are joined with the empty
  separator.
\<close>

definition get_text :: "anchor \<Rightarrow> string" where
  "get_text link = concat (filter (\<lambda>s. s \<noteq> []) (map strip (all_strings link)))"

text \<open>What a reader of the page sees as the text of the anchor.\<close>

definition visible_text :: "anchor \<Rightarrow> string" where
  "visible_text link = concat (all_strings link)"

section \<open>The resolver: \<^verbatim>\<open>search_company_website\<close>\<close>

definition search_url :: "string \<Rightarrow> string" where
  "search_url company_name =
     ''https://duckduckgo.com/html/?q='' @ (company_name @ '' official website'')"

text \<open>
  The body of the \<^verbatim>\<open>try\<close> block (lines 19-35). \<open>Inr (Some url)\<close> is \<^verbatim>\<open>return main_url\<close>;
  \<open>Inr None\<close> is control leaving the block without returning.
\<close>

definition search_try :: "env \<Rightarrow> string \<Rightarrow> exn + string option" where
  "search_try env company_name =
     (case session_get env (search_url company_name) of
        Inl e \<Rightarrow> Inl e
      | Inr response \<Rightarrow>
          (case html_anchors env (content response) of
             Inl e \<Rightarrow> Inl e
           | Inr soup \<Rightarrow>
               (case filter (\<lambda>a. ''result__a'' \<in> set (attr_class a)) soup of
                  [] \<Rightarrow> Inr None
                | first # _ \<Rightarrow>
                    (case attr_href first of
                       None \<Rightarrow> Inr None
                     | Some main_url \<Rightarrow> if main_url \<noteq> [] then Inr (Some main_url) else Inr None))))"

text \<open>
  The whole method (lines 17-40): the request it issued, and its outcome. The handler of
  \<^verbatim>\<open>except Exception\<close> prints and falls through to \<^verbatim>\<open>return None\<close>. The outcome is a sum so
  that "the method never raises" is a statement about it, and so that the caller's own
  \<^verbatim>\<open>try\<close> block has a branch for it.
\<close>

definition search_company_website :: "env \<Rightarrow> string \<Rightarrow> request list \<times> (exn + string option)" where
  "search_company_website env company_name =
     ([GET (search_url company_name)],
      (case search_try env company_name of
         Inl e \<Rightarrow> Inr None
       | Inr found \<Rightarrow> Inr found))"

section \<open>The discovery engine: \<^verbatim>\<open>find_career_page\<close>\<close>

definition career_patterns :: "string list" where
  "career_patterns =
     [''/careers'', ''/career'', ''/jobs'', ''/job-opportunities'', ''/work-with-us'',
      ''/join-us'', ''/employment'', ''/opportunities'', ''/hiring'', ''/openings'']"

definition career_keywords :: "string list" where
  "career_keywords =
     [''career'', ''job'', ''work with us'', ''join us'', ''employment'', ''hiring'',
      ''opportunities'', ''openings'']"

text \<open>
  Lines 77-83: the test \<^verbatim>\<open>any(keyword in href or keyword in text for keyword in
  career_keywords)\<close> on the lower-cased \<^verbatim>\<open>link.get('href', '')\<close> and the lower-cased
  \<^verbatim>\<open>link.get_text(strip=True)\<close>.
\<close>

definition is_career_link :: "env \<Rightarrow> anchor \<Rightarrow> bool" where
  "is_career_link env link =
     (let href = str_lower env (case attr_href link of None \<Rightarrow> [] | Some h \<Rightarrow> h);
          text = str_lower env (get_text link)
      in list_ex (\<lambda>keyword. py_in keyword href \<or> py_in keyword text) career_keywords)"

text \<open>
  Lines 76-86: the loop over \<^verbatim>\<open>all_links\<close>, with \<^verbatim>\<open>career_links\<close> as accumulator.
  \<^verbatim>\<open>link['href']\<close> raises \<^verbatim>\<open>KeyError\<close> on an element without the attribute, and an
  exception of \<^verbatim>\<open>urljoin\<close> leaves the loop.
\<close>

fun scan_links :: "env \<Rightarrow> string \<Rightarrow> anchor list \<Rightarrow> string list \<Rightarrow> exn + string list" where
  "scan_links env website [] career_links = Inr career_links"
| "scan_links env website (link # all_links) career_links =
     (if is_career_link env link then
        (case attr_href link of
           None \<Rightarrow> Inl KeyError
         | Some h \<Rightarrow>
             (case urljoin env website h of
                Inl e \<Rightarrow> Inl e
              | Inr full_url \<Rightarrow>
                  scan_links env website all_links
                    (if full_url \<notin> set career_links then career_links @ [full_url]
                     else career_links)))
      else scan_links env website all_links career_links)"

text \<open>
  Lines 91-98: the loop over \<^verbatim>\<open>career_patterns\<close>. The bare \<^verbatim>\<open>except: continue\<close> drops
  whatever one probe raises. The result is the requests issued and the final
  \<^verbatim>\<open>career_links\<close>.
\<close>

fun probe_patterns :: "env \<Rightarrow> string \<Rightarrow> string list \<Rightarrow> string list \<Rightarrow> request list \<times> string list" where
  "probe_patterns env base_url [] career_links = ([], career_links)"
| "probe_patterns env base_url (pattern # patterns) career_links =
     (let test_url = base_url @ pattern;
          career_links' =
            (case session_head env test_url of
               Inl e \<Rightarrow> career_links
             | Inr test_response \<Rightarrow>
                 if status_code test_response = 200 then career_links @ [test_url]
                 else career_links);
          (reqs, final) = probe_patterns env base_url patterns career_links'
      in (HEAD test_url # reqs, final))"

text \<open>
  Lines 106-112: the handler of the outer \<^verbatim>\<open>except Exception\<close>, with
  \<^verbatim>\<open>main_website or "Error"\<close>.
\<close>

definition on_error :: "string \<Rightarrow> string option \<Rightarrow> discovery" where
  "on_error company_name website =
     \<lparr>company = company_name,
      main_website = (case website of
                        None \<Rightarrow> ''Error''
                      | Some u \<Rightarrow> if u \<noteq> [] then u else ''Error''),
      career_urls = []\<rparr>"

text \<open>
  Lines 67-112, entered with \<^verbatim>\<open>main_website\<close> a non-empty string: fetch, parse, scan,
  fall back to probing when the scan found nothing, and cut to three.
\<close>

definition fetch_and_scan :: "env \<Rightarrow> string \<Rightarrow> string \<Rightarrow> request list \<times> discovery" where
  "fetch_and_scan env company_name website =
     (case session_get env website of
        Inl e \<Rightarrow> ([GET website], on_error company_name (Some website))
      | Inr response \<Rightarrow>
          (case html_anchors env (content response) of
             Inl e \<Rightarrow> ([GET website], on_error company_name (Some website))
           | Inr soup \<Rightarrow>
               (case scan_links env website (filter (\<lambda>a. attr_href a \<noteq> None) soup) [] of
                  Inl e \<Rightarrow> ([GET website], on_error company_name (Some website))
                | Inr career_links \<Rightarrow>
                    if career_links = [] then
                      (let base_url = rstrip CHR ''/'' website;
                           (reqs, probed) = probe_patterns env base_url career_patterns career_links
                       in (GET website # reqs,
                           \<lparr>company = company_name, main_website = website,
                            career_urls = take 3 probed\<rparr>))
                    else
                      ([GET website],
                       \<lparr>company = company_name, main_website = website,
                        career_urls = take 3 career_links\<rparr>))))"

text \<open>
  The whole method (lines 42-112). \<^verbatim>\<open>if not main_website\<close> sends \<^verbatim>\<open>None\<close> and the empty
  string to the resolver; should the resolver raise, the handler runs with
  \<^verbatim>\<open>main_website\<close> still falsy. In the last \<open>case\<close>, \<open>website\<close> is truthy, so only the
  branch \<open>Some\<close> is ever taken.
\<close>

definition find_career_page :: "env \<Rightarrow> string \<Rightarrow> string option \<Rightarrow> request list \<times> discovery" where
  "find_career_page env company_name website =
     (if \<not> truthy website then
        (case search_company_website env company_name of
           (reqs, Inl e) \<Rightarrow> (reqs, on_error company_name website)
         | (reqs, Inr None) \<Rightarrow>
             (reqs, \<lparr>company = company_name, main_website = ''Not found'', career_urls = []\<rparr>)
         | (reqs, Inr (Some found)) \<Rightarrow>
             if found = [] then
               (reqs, \<lparr>company = company_name, main_website = ''Not found'', career_urls = []\<rparr>)
             else
               (let (reqs', result) = fetch_and_scan env company_name found
                in (reqs @ reqs', result)))
      else
        (case website of
           None \<Rightarrow> ([], on_error company_name None)
         | Some u \<Rightarrow> fetch_and_scan env company_name u))"

section \<open>Notions the properties are stated with\<close>

text \<open>
  The homepage a call works on (lines 48-51): the caller's URL when it is truthy,
  otherwise what the resolver returned; \<open>None\<close> when the call ends with "Not found".
\<close>

definition homepage :: "env \<Rightarrow> string \<Rightarrow> string option \<Rightarrow> string option" where
  "homepage env company_name website =
     (if truthy website then website
      else (case snd (search_company_website env company_name) of
              Inl e \<Rightarrow> None
            | Inr found \<Rightarrow> if truthy found then found else None))"

text \<open>The anchors \<^verbatim>\<open>soup.find_all('a', href=True)\<close> selects that pass the keyword test.\<close>

definition relevant_links :: "env \<Rightarrow> anchor list \<Rightarrow> anchor list" where
  "relevant_links env soup =
     filter (is_career_link env) (filter (\<lambda>a. attr_href a \<noteq> None) soup)"

text \<open>
  Their absolute URLs in page order, duplicates included; an anchor whose reference
  \<open>urljoin\<close> rejects contributes none.
\<close>

definition resolved_urls :: "env \<Rightarrow> string \<Rightarrow> anchor list \<Rightarrow> string list" where
  "resolved_urls env website links =
     concat (map (\<lambda>a. case attr_href a of
                         None \<Rightarrow> []
                       | Some h \<Rightarrow> (case urljoin env website h of Inl e \<Rightarrow> [] | Inr full_url \<Rightarrow> [full_url]))
                 links)"

text \<open>A probe counts when \<^verbatim>\<open>session.head\<close> returns and the status is 200.\<close>

definition head_ok :: "env \<Rightarrow> string \<Rightarrow> bool" where
  "head_ok env url =
     (case session_head env url of Inl e \<Rightarrow> False | Inr r \<Rightarrow> status_code r = 200)"

text \<open>
  Deduplication as the specification words it: the first occurrence wins and the order
  is preserved.
\<close>

fun first_seen :: "'a list \<Rightarrow> 'a list" where
  "first_seen [] = []"
| "first_seen (x # xs) = x # first_seen (filter (\<lambda>y. y \<noteq> x) xs)"

text \<open>Two environments answer a request alike.\<close>

fun same_response :: "env \<Rightarrow> env \<Rightarrow> request \<Rightarrow> bool" where
  "same_response e1 e2 (GET url) = (session_get e1 url = session_get e2 url)"
| "same_response e1 e2 (HEAD url) = (session_head e1 url = session_head e2 url)"

text \<open>The URLs a trace sent HEAD requests to, in order.\<close>

fun probed :: "request list \<Rightarrow> string list" where
  "probed [] = []"
| "probed (GET url # reqs) = probed reqs"
| "probed (HEAD url # reqs) = url # probed reqs"

section \<open>Fixtures for concrete runs\<close>

text \<open>
  Lower-casing of ASCII letters, where it agrees with \<^verbatim>\<open>str.lower\<close>; and \<open>urljoin\<close> for a
  base without a path and a reference that is either an absolute path or an absolute URL,
  where it agrees with \<^verbatim>\<open>urllib.parse.urljoin\<close>.
\<close>

definition ascii_lower :: "string \<Rightarrow> string" where
  "ascii_lower s =
     map (\<lambda>c. case map_of (zip ''ABCDEFGHIJKLMNOPQRSTUVWXYZ'' ''abcdefghijklmnopqrstuvwxyz'') c of
                 None \<Rightarrow> c
               | Some l \<Rightarrow> l) s"

definition urljoin_simple :: "string \<Rightarrow> string \<Rightarrow> exn + string" where
  "urljoin_simple base ref = Inr (if prefix ''/'' ref then base @ ref else ref)"

text \<open>
  A canned network: \<open>pages\<close> maps a URL to the body a GET returns (any other URL fails
  to connect), \<open>heads\<close> maps a URL to the status a HEAD returns (any other URL times
  out), \<open>docs\<close> maps a body to its anchors (any other body has none).
\<close>

definition fixture :: "(string \<times> string) list \<Rightarrow> (string \<times> int) list \<Rightarrow> (string \<times> anchor list) list \<Rightarrow> env" where
  "fixture pages heads docs =
     \<lparr>session_get = (\<lambda>url. case map_of pages url of
                              None \<Rightarrow> Inl ConnectionError
                            | Some body \<Rightarrow> Inr \<lparr>status_code = 200, content = body\<rparr>),
      session_head = (\<lambda>url. case map_of heads url of
                               None \<Rightarrow> Inl Timeout
                             | Some st \<Rightarrow> Inr \<lparr>status_code = st, content = []\<rparr>),
      html_anchors = (\<lambda>body. case map_of docs body of None \<Rightarrow> Inr [] | Some anchors \<Rightarrow> Inr anchors),
      urljoin = urljoin_simple,
      str_lower = ascii_lower\<rparr>"

text \<open>
  An anchor with an \<^verbatim>\<open>href\<close> and one text string, and an anchor of the search engine's
  result list.
\<close>

definition link :: "string \<Rightarrow> string \<Rightarrow> anchor" where
  "link href txt = \<lparr>attr_href = Some href, attr_class = [], all_strings = [txt]\<rparr>"

definition result_link :: "string \<Rightarrow> anchor" where
  "result_link href = \<lparr>attr_href = Some href, attr_class = [''result__a''], all_strings = []\<rparr>"

text \<open>
  Networks for the resolver and for fetch failures: nothing answers; the search finds
  the homepage of Acme and every other request times out; the parser rejects every body;
  the results page has no result anchor.
\<close>

definition offline :: env where
  "offline = fixture [] [] []"

definition acme_times_out :: env where
  "acme_times_out =
     (fixture [] [] [(''results'', [result_link ''https://acme.example''])])
       \<lparr>session_get := (\<lambda>url. if url = search_url ''Acme''
                                then Inr \<lparr>status_code = 200, content = ''results''\<rparr>
                                else Inl Timeout)\<rparr>"

definition unparseable :: env where
  "unparseable =
     (fixture [(search_url ''Acme'', ''garbled''), (''https://acme.example'', ''garbled'')] [] [])
       \<lparr>html_anchors := (\<lambda>body. Inl ParserRejected)\<rparr>"

definition no_results :: env where
  "no_results = fixture [(search_url ''Acme'', ''none'')] [] [(''none'', [link ''/html'' ''Settings''])]"

text \<open>
  Sites: a homepage with the anchors "About" and "Careers"; a homepage without anchors,
  with a table of HEAD answers; and the tables where only \<^verbatim>\<open>/jobs\<close> answers 200, and where
  every suffix does.
\<close>

definition acme_site :: env where
  "acme_site =
     fixture [(''https://acme.example'', ''<a href=/about>About</a><a href=/careers>Careers</a>'')]
       [(''https://acme.example/jobs'', 200)]
       [(''<a href=/about>About</a><a href=/careers>Careers</a>'',
         [link ''/about'' ''About'', link ''/careers'' ''Careers''])]"

definition bare_site :: "string \<Rightarrow> (string \<times> int) list \<Rightarrow> env" where
  "bare_site url heads = fixture [(url, ''<p>Welcome</p>'')] heads []"

definition only_jobs :: "(string \<times> int) list" where
  "only_jobs = map (\<lambda>p. (''https://acme.example'' @ p, if p = ''/jobs'' then 200 else 404)) career_patterns"

definition all_ok :: "(string \<times> int) list" where
  "all_ok = map (\<lambda>p. (''https://acme.example'' @ p, 200)) career_patterns"

text \<open>
  A homepage written with a trailing slash whose \<^verbatim>\<open>/careers\<close> redirects; a homepage with
  a path; and a second network serving the same Acme homepage as \<open>acme_site\<close>.
\<close>

definition jobs_or_timeout :: env where
  "jobs_or_timeout =
     bare_site ''https://acme.example/'' [(''https://acme.example/jobs'', 200), (''https://acme.example/careers'', 301)]"

definition deep_site :: env where
  "deep_site = bare_site ''https://x.com/en/home'' [(''https://x.com/en/home/careers'', 200), (''https://x.com/careers'', 200)]"

definition acme_mirror :: env where
  "acme_mirror =
     fixture [(''https://acme.example'', ''<a href=/about>About</a><a href=/careers>Careers</a>''),
              (''https://other.example'', ''<a href=/jobs>Jobs</a>'')]
       [(''https://acme.example/jobs'', 404), (''https://acme.example/hiring'', 200)]
       [(''<a href=/about>About</a><a href=/careers>Careers</a>'',
         [link ''/about'' ''About'', link ''/careers'' ''Careers''])]"

text \<open>
  Pages with repeated links: four distinct job links, the fourth one twice; and a page
  whose first and last relevant anchors point to the same place.
\<close>

definition four_jobs_page :: "anchor list" where
  "four_jobs_page =
     [link ''/a-jobs'' ''Sales'', link ''/b-jobs'' ''Research'', link ''/c-jobs'' ''Support'',
      link ''/d-jobs'' ''Design'', link ''/d-jobs'' ''Design (again)'']"

definition four_jobs_site :: env where
  "four_jobs_site = fixture [(''https://acme.example'', ''four'')] [] [(''four'', four_jobs_page)]"

definition repeated_page :: "anchor list" where
  "repeated_page =
     [link ''/careers'' ''Careers'', link ''/about'' ''About'', link ''/jobs'' ''Jobs'',
      link ''/careers'' ''Work with us'']"

definition repeated_site :: env where
  "repeated_site = fixture [(''https://acme.example'', ''repeated'')] [] [(''repeated'', repeated_page)]"

text \<open>
  Anchors the keyword test passes by: one whose text is spread over nested elements, and
  one without an \<^verbatim>\<open>href\<close>, alone on its page.
\<close>

definition nested_join_us :: anchor where
  "nested_join_us =
     \<lparr>attr_href = Some ''/team'', attr_class = [], all_strings = [''Join '', ''Us'', '' Today'']\<rparr>"

definition careers_without_href :: anchor where
  "careers_without_href = \<lparr>attr_href = None, attr_class = [], all_strings = [''Careers'']\<rparr>"

definition href_less_site :: env where
  "href_less_site =
     fixture [(''https://acme.example'', ''<a>Careers</a>'')] [] [(''<a>Careers</a>'', [careers_without_href])]"

text \<open>
  A page whose third relevant anchor has a reference with an unclosed bracket in its
  authority, on which \<^verbatim>\<open>urljoin\<close> raises \<^verbatim>\<open>ValueError\<close>.
\<close>

definition broken_ref_page :: "anchor list" where
  "broken_ref_page =
     [link ''/careers'' ''Careers'', link ''/careers'' ''Join us'', link ''//[jobs'' ''Jobs'']"

definition broken_ref_site :: env where
  "broken_ref_site =
     (fixture [(''https://acme.example'', ''broken'')] [] [(''broken'', broken_ref_page)])
       \<lparr>urljoin := (\<lambda>base ref. if ref = ''//[jobs'' then Inl ValueError
                                else urljoin_simple base ref)\<rparr>"

section \<open>Auxiliary facts\<close>


lemma py_in_iff: "py_in k s \<longleftrightarrow> (\<exists>p q. s = p @ k @ q)"
proof (induction s)
  case Nil
  then show ?case by auto
next
  case (Cons c s)
  show ?case
  proof
    assume "py_in k (c # s)"
    then consider "prefix k (c # s)" | "py_in k s" by auto
    then show "\<exists>p q. c # s = p @ k @ q"
    proof cases
      case 1
      then obtain q where "c # s = k @ q" by (auto simp: prefix_def)
      then have "c # s = [] @ k @ q" by simp
      then show ?thesis by blast
    next
      case 2
      with Cons.IH obtain p q where "s = p @ k @ q" by blast
      then have "c # s = (c # p) @ k @ q" by simp
      then show ?thesis by blast
    qed
  next
    assume "\<exists>p q. c # s = p @ k @ q"
    then obtain p q where pq: "c # s = p @ k @ q" by blast
    show "py_in k (c # s)"
    proof (cases p)
      case Nil
      with pq have "prefix k (c # s)" by (simp add: prefix_def)
      then show ?thesis by simp
    next
      case (Cons a p')
      with pq have "s = p' @ k @ q" by simp
      with Cons.IH have "py_in k s" by blast
      then show ?thesis by simp
    qed
  qed
qed

lemma probe_patterns_eq:
  "probe_patterns env b ps acc =
     (map (\<lambda>p. HEAD (b @ p)) ps, acc @ filter (head_ok env) (map ((@) b) ps))"
  by (induction ps arbitrary: acc)
     (auto simp: head_ok_def Let_def split: sum.splits prod.splits)

lemma search_never_raises: "\<exists>r. snd (search_company_website env c) = Inr r"
  by (simp add: search_company_website_def split: sum.splits)

lemma fetch_and_scan_length:
  "length (career_urls (snd (fetch_and_scan env c u))) \<le> 3"
  by (simp add: fetch_and_scan_def on_error_def Let_def split: sum.splits prod.splits)

lemma find_career_page_cases:
  "(\<exists>u. homepage env c w = Some u \<and> u \<noteq> [] \<and>
        snd (find_career_page env c w) = snd (fetch_and_scan env c u) \<and>
        fst (find_career_page env c w) =
          (if truthy w then [] else [GET (search_url c)]) @ fst (fetch_and_scan env c u)) \<or>
   (homepage env c w = None \<and> \<not> truthy w \<and>
      find_career_page env c w =
        ([GET (search_url c)], \<lparr>company = c, main_website = ''Not found'', career_urls = []\<rparr>))"
  by (cases w)
     (auto simp: find_career_page_def homepage_def search_company_website_def
           split: sum.splits option.splits prod.splits)

section \<open>The properties\<close>

text \<open>
  C2. Whatever the company name, the homepage argument and the answers of the network
  and the libraries, the \<^verbatim>\<open>career_urls\<close> of the returned result has at most three
  entries.
\<close>

theorem career_urls_at_most_three:
  "length (career_urls (snd (find_career_page env c w))) \<le> 3"
  using find_career_page_cases [of env c w] fetch_and_scan_length [of env c]
  by auto

subsection \<open>Fetch failure (C1)\<close>

lemma fetch_failure:
  assumes "u \<noteq> []"
    and "isl (session_get env u) \<or> (\<exists>r. session_get env u = Inr r \<and> isl (html_anchors env (content r)))"
  shows "snd (fetch_and_scan env c u) = \<lparr>company = c, main_website = u, career_urls = []\<rparr>"
  using assms
  by (auto simp: fetch_and_scan_def on_error_def isl_def split: sum.splits)

text \<open>
  C1, as the code has it. When the GET of the homepage raises, or the parser raises on
  its body, the call returns the homepage it attempted as \<^verbatim>\<open>main_website\<close>, be it the
  caller's URL or the one the resolver found, with an empty \<^verbatim>\<open>career_urls\<close>: the
  handler's \<^verbatim>\<open>main_website or "Error"\<close> finds the variable set.
\<close>

theorem fetch_failure_keeps_attempted_url:
  assumes "homepage env c w = Some u"
    and "isl (session_get env u) \<or>
         (\<exists>r. session_get env u = Inr r \<and> isl (html_anchors env (content r)))"
  shows "snd (find_career_page env c w) = \<lparr>company = c, main_website = u, career_urls = []\<rparr>"
proof -
  from find_career_page_cases [of env c w] assms(1)
  have "u \<noteq> []" and "snd (find_career_page env c w) = snd (fetch_and_scan env c u)"
    by auto
  with fetch_failure [OF _ assms(2)] show ?thesis by simp
qed

text \<open>
  The theorem at two runs with a caller-supplied homepage: one where the site does not
  answer, one where the parser rejects the body.
\<close>

theorem fetch_failure_keeps_attempted_url_witness:
  "homepage offline ''Acme'' (Some ''https://acme.example'') = Some ''https://acme.example'' \<and>
   session_get offline ''https://acme.example'' = Inl ConnectionError \<and>
   snd (find_career_page offline ''Acme'' (Some ''https://acme.example'')) =
     \<lparr>company = ''Acme'', main_website = ''https://acme.example'', career_urls = []\<rparr> \<and>
   (\<exists>r. session_get unparseable ''https://acme.example'' = Inr r \<and>
        html_anchors unparseable (content r) = Inl ParserRejected) \<and>
   snd (find_career_page unparseable ''Acme'' (Some ''https://acme.example'')) =
     \<lparr>company = ''Acme'', main_website = ''https://acme.example'', career_urls = []\<rparr>"
proof -
  have h: "homepage offline ''Acme'' (Some ''https://acme.example'') = Some ''https://acme.example''"
    by (simp add: homepage_def)
  have g: "session_get offline ''https://acme.example'' = Inl ConnectionError"
    by (simp add: offline_def fixture_def)
  have h2: "homepage unparseable ''Acme'' (Some ''https://acme.example'') = Some ''https://acme.example''"
    by (simp add: homepage_def)
  have g2: "\<exists>r. session_get unparseable ''https://acme.example'' = Inr r \<and>
        html_anchors unparseable (content r) = Inl ParserRejected"
    by (simp add: unparseable_def fixture_def search_url_def)
  from g have "isl (session_get offline ''https://acme.example'')" by simp
  with fetch_failure_keeps_attempted_url [OF h]
  have r1: "snd (find_career_page offline ''Acme'' (Some ''https://acme.example'')) =
     \<lparr>company = ''Acme'', main_website = ''https://acme.example'', career_urls = []\<rparr>"
    by blast
  from g2 have "\<exists>r. session_get unparseable ''https://acme.example'' = Inr r \<and>
        isl (html_anchors unparseable (content r))" by auto
  with fetch_failure_keeps_attempted_url [OF h2]
  have r2: "snd (find_career_page unparseable ''Acme'' (Some ''https://acme.example'')) =
     \<lparr>company = ''Acme'', main_website = ''https://acme.example'', career_urls = []\<rparr>"
    by blast
  from h g r1 g2 r2 show ?thesis by blast
qed

text \<open>
  C1 as the specification words it fails: the resolver finds the homepage of Acme, the
  GET of that homepage times out, and \<^verbatim>\<open>main_website\<close> is the homepage, not
  \<^verbatim>\<open>"Error"\<close>.
\<close>

theorem fetch_timeout_not_error_counterexample:
  "homepage acme_times_out ''Acme'' None = Some ''https://acme.example'' \<and>
   session_get acme_times_out ''https://acme.example'' = Inl Timeout \<and>
   snd (find_career_page acme_times_out ''Acme'' None) =
     \<lparr>company = ''Acme'', main_website = ''https://acme.example'', career_urls = []\<rparr> \<and>
   main_website (snd (find_career_page acme_times_out ''Acme'' None)) \<noteq> ''Error''"
  by (simp add: homepage_def find_career_page_def search_company_website_def search_try_def
      fetch_and_scan_def on_error_def acme_times_out_def fixture_def result_link_def
      search_url_def)

subsection \<open>Sentinels (C3)\<close>

text \<open>
  C3. If \<^verbatim>\<open>main_website\<close> of the result is \<^verbatim>\<open>"Not found"\<close> or \<^verbatim>\<open>"Error"\<close>, then
  \<^verbatim>\<open>career_urls\<close> is empty. The two hypotheses on the environment say what
  \<^verbatim>\<open>requests\<close> does with these two strings when they are passed as URLs: neither is a
  URL it accepts, so \<^verbatim>\<open>session.get\<close> raises (\<^verbatim>\<open>MissingSchema\<close> or \<^verbatim>\<open>InvalidURL\<close>) before
  any request is sent.
\<close>

theorem sentinel_website_has_no_career_urls:
  assumes "isl (session_get env ''Not found'')"
    and "isl (session_get env ''Error'')"
    and "main_website (snd (find_career_page env c w)) \<in> {''Not found'', ''Error''}"
  shows "career_urls (snd (find_career_page env c w)) = []"
proof -
  have "main_website (snd (fetch_and_scan env c u)) = u" if "u \<noteq> []" for u
    using that by (simp add: fetch_and_scan_def on_error_def Let_def split: sum.splits prod.splits)
  moreover have "career_urls (snd (fetch_and_scan env c u)) = []" if "isl (session_get env u)" for u
    using that by (auto simp: fetch_and_scan_def on_error_def isl_def)
  ultimately show ?thesis
    using find_career_page_cases [of env c w] assms by auto
qed

text \<open>
  The theorem at two runs without network: the resolver finds nothing, and the caller
  passes the string \<^verbatim>\<open>"Error"\<close> as homepage.
\<close>

theorem sentinel_website_has_no_career_urls_witness:
  "isl (session_get offline ''Not found'') \<and> isl (session_get offline ''Error'') \<and>
   main_website (snd (find_career_page offline ''Acme'' None)) = ''Not found'' \<and>
   career_urls (snd (find_career_page offline ''Acme'' None)) = [] \<and>
   main_website (snd (find_career_page offline ''Acme'' (Some ''Error''))) = ''Error'' \<and>
   career_urls (snd (find_career_page offline ''Acme'' (Some ''Error''))) = []"
proof -
  have a: "isl (session_get offline ''Not found'')" and b: "isl (session_get offline ''Error'')"
    by (simp_all add: offline_def fixture_def)
  have m: "main_website (snd (find_career_page offline ''Acme'' None)) = ''Not found''"
    by (simp add: find_career_page_def search_company_website_def search_try_def
        offline_def fixture_def)
  have m2: "main_website (snd (find_career_page offline ''Acme'' (Some ''Error''))) = ''Error''"
    by (simp add: find_career_page_def fetch_and_scan_def on_error_def offline_def fixture_def)
  from m sentinel_website_has_no_career_urls [OF a b, of "''Acme''" None]
  have r: "career_urls (snd (find_career_page offline ''Acme'' None)) = []" by simp
  from m2 sentinel_website_has_no_career_urls [OF a b, of "''Acme''" "Some ''Error''"]
  have r2: "career_urls (snd (find_career_page offline ''Acme'' (Some ''Error''))) = []" by simp
  from a b m r m2 r2 show ?thesis by blast
qed

subsection \<open>The resolver (C8)\<close>

text \<open>
  C8. \<^verbatim>\<open>search_company_website\<close> never raises, and it returns \<^verbatim>\<open>None\<close> whenever the
  search request raises, the parser raises on the results page, or the results page has
  no anchor of class \<^verbatim>\<open>result__a\<close>.
\<close>

theorem resolver_never_raises:
  "(\<exists>r. snd (search_company_website env c) = Inr r) \<and>
   (isl (session_get env (search_url c)) \<longrightarrow> snd (search_company_website env c) = Inr None) \<and>
   (\<forall>resp. session_get env (search_url c) = Inr resp \<and> isl (html_anchors env (content resp))
      \<longrightarrow> snd (search_company_website env c) = Inr None) \<and>
   (\<forall>resp soup. session_get env (search_url c) = Inr resp \<and>
        html_anchors env (content resp) = Inr soup \<and>
        (\<forall>a \<in> set soup. ''result__a'' \<notin> set (attr_class a))
      \<longrightarrow> snd (search_company_website env c) = Inr None)"
proof -
  have "filter (\<lambda>a. ''result__a'' \<in> set (attr_class a)) soup = []"
    if "\<forall>a \<in> set soup. ''result__a'' \<notin> set (attr_class a)" for soup :: "anchor list"
    using that by (simp add: filter_empty_conv)
  then show ?thesis
    by (auto simp: search_company_website_def search_try_def isl_def split: sum.splits)
qed

text \<open>
  The theorem at three runs: no network, a results page the parser rejects, and a
  results page whose only anchor is not a result.
\<close>

theorem resolver_never_raises_witness:
  "isl (session_get offline (search_url ''Acme'')) \<and>
   snd (search_company_website offline ''Acme'') = Inr None \<and>
   (\<exists>resp. session_get unparseable (search_url ''Acme'') = Inr resp \<and>
      isl (html_anchors unparseable (content resp))) \<and>
   snd (search_company_website unparseable ''Acme'') = Inr None \<and>
   (\<exists>resp soup. session_get no_results (search_url ''Acme'') = Inr resp \<and>
      html_anchors no_results (content resp) = Inr soup \<and> soup \<noteq> [] \<and>
      list_all (\<lambda>a. ''result__a'' \<notin> set (attr_class a)) soup) \<and>
   snd (search_company_website no_results ''Acme'') = Inr None"
proof -
  have a: "isl (session_get offline (search_url ''Acme''))"
    by (simp add: offline_def fixture_def)
  have b: "\<exists>resp. session_get unparseable (search_url ''Acme'') = Inr resp \<and>
      isl (html_anchors unparseable (content resp))"
    by (simp add: unparseable_def fixture_def)
  have c: "\<exists>resp soup. session_get no_results (search_url ''Acme'') = Inr resp \<and>
      html_anchors no_results (content resp) = Inr soup \<and> soup \<noteq> [] \<and>
      list_all (\<lambda>a. ''result__a'' \<notin> set (attr_class a)) soup"
    by (simp add: no_results_def fixture_def link_def)
  from a resolver_never_raises [of offline "''Acme''"]
  have ra: "snd (search_company_website offline ''Acme'') = Inr None" by blast
  from b resolver_never_raises [of unparseable "''Acme''"]
  have rb: "snd (search_company_website unparseable ''Acme'') = Inr None" by blast
  from c resolver_never_raises [of no_results "''Acme''"]
  have rc: "snd (search_company_website no_results ''Acme'') = Inr None"
    by (auto simp: list_all_iff)
  from a ra b rb c rc show ?thesis by blast
qed

subsection \<open>Scan or probe (C4)\<close>

lemma scan_links_empty_iff:
  "scan_links env w links acc = Inr ls \<Longrightarrow>
     (ls = [] \<longleftrightarrow> acc = [] \<and> filter (is_career_link env) links = [])"
  by (induction links arbitrary: acc) (auto split: if_splits option.splits sum.splits)

lemma scan_links_raises:
  "scan_links env w links acc = Inl e \<Longrightarrow> filter (is_career_link env) links \<noteq> []"
  by (induction links arbitrary: acc) (auto split: if_splits option.splits sum.splits)

lemma probed_map_HEAD [simp]: "probed (map (\<lambda>p. HEAD (f p)) ps) = map f ps"
  by (induction ps) auto

lemma fetch_and_scan_fallback:
  assumes "session_get env u = Inr r" and "html_anchors env (content r) = Inr soup"
    and "relevant_links env soup = []"
  shows "fetch_and_scan env c u =
     (GET u # map (\<lambda>p. HEAD (rstrip CHR ''/'' u @ p)) career_patterns,
      \<lparr>company = c, main_website = u,
       career_urls = take 3 (filter (head_ok env) (map ((@) (rstrip CHR ''/'' u)) career_patterns))\<rparr>)"
proof (cases "scan_links env u (filter (\<lambda>a. attr_href a \<noteq> None) soup) []")
  case (Inl e)
  from scan_links_raises [OF this] assms(3) show ?thesis
    by (simp add: relevant_links_def)
next
  case (Inr ls)
  from scan_links_empty_iff [OF this] assms(3) have "ls = []"
    by (simp add: relevant_links_def)
  with Inr assms(1,2) show ?thesis
    by (simp add: fetch_and_scan_def probe_patterns_eq Let_def)
qed

lemma fetch_and_scan_found:
  assumes "session_get env u = Inr r" and "html_anchors env (content r) = Inr soup"
    and "relevant_links env soup \<noteq> []"
  shows "fst (fetch_and_scan env c u) = [GET u]"
    and "career_urls (snd (fetch_and_scan env c u)) =
           (case scan_links env u (filter (\<lambda>a. attr_href a \<noteq> None) soup) [] of
              Inl e \<Rightarrow> [] | Inr ls \<Rightarrow> take 3 ls)"
proof -
  have "fst (fetch_and_scan env c u) = [GET u] \<and>
        career_urls (snd (fetch_and_scan env c u)) =
           (case scan_links env u (filter (\<lambda>a. attr_href a \<noteq> None) soup) [] of
              Inl e \<Rightarrow> [] | Inr ls \<Rightarrow> take 3 ls)"
  proof (cases "scan_links env u (filter (\<lambda>a. attr_href a \<noteq> None) soup) []")
    case (Inl e)
    with assms(1,2) show ?thesis
      by (simp add: fetch_and_scan_def on_error_def)
  next
    case (Inr ls)
    from scan_links_empty_iff [OF this] assms(3) have "ls \<noteq> []"
      by (simp add: relevant_links_def)
    with Inr assms(1,2) show ?thesis
      by (simp add: fetch_and_scan_def)
  qed
  then show "fst (fetch_and_scan env c u) = [GET u]"
    and "career_urls (snd (fetch_and_scan env c u)) =
           (case scan_links env u (filter (\<lambda>a. attr_href a \<noteq> None) soup) [] of
              Inl e \<Rightarrow> [] | Inr ls \<Rightarrow> take 3 ls)"
    by simp_all
qed

lemma scan_links_resolved:
  assumes "\<forall>a \<in> set links. is_career_link env a \<longrightarrow>
             (\<exists>h full. attr_href a = Some h \<and> urljoin env w h = Inr full)"
  shows "scan_links env w links acc =
           Inr (acc @ first_seen (filter (\<lambda>x. x \<notin> set acc)
                  (resolved_urls env w (filter (is_career_link env) links))))"
  using assms
proof (induction links arbitrary: acc)
  case Nil
  then show ?case by (simp add: resolved_urls_def)
next
  case (Cons a links)
  show ?case
  proof (cases "is_career_link env a")
    case False
    with Cons show ?thesis by simp
  next
    case True
    with Cons.prems obtain h full where hf: "attr_href a = Some h" "urljoin env w h = Inr full"
      by auto
    have tl: "\<forall>a \<in> set links. is_career_link env a \<longrightarrow>
             (\<exists>h full. attr_href a = Some h \<and> urljoin env w h = Inr full)"
      using Cons.prems by simp
    have res: "resolved_urls env w (filter (is_career_link env) (a # links)) =
               full # resolved_urls env w (filter (is_career_link env) links)"
      using True hf by (simp add: resolved_urls_def)
    show ?thesis
    proof (cases "full \<in> set acc")
      case True
      with \<open>is_career_link env a\<close> hf Cons.IH [OF tl, of acc] res show ?thesis by simp
    next
      case False
      with \<open>is_career_link env a\<close> hf Cons.IH [OF tl, of "acc @ [full]"] res show ?thesis
        by (simp add: conj_commute)
    qed
  qed
qed

lemma find_career_page_via:
  assumes "homepage env c w = Some u"
  shows "u \<noteq> []"
    and "snd (find_career_page env c w) = snd (fetch_and_scan env c u)"
    and "fst (find_career_page env c w) =
          (if truthy w then [] else [GET (search_url c)]) @ fst (fetch_and_scan env c u)"
  using find_career_page_cases [of env c w] assms by auto

lemma fallback_run:
  assumes "homepage env c w = Some u"
    and "session_get env u = Inr r"
    and "html_anchors env (content r) = Inr soup"
    and "relevant_links env soup = []"
  shows "career_urls (snd (find_career_page env c w)) =
           take 3 (filter (head_ok env) (map ((@) (rstrip CHR ''/'' u)) career_patterns))"
    and "fst (find_career_page env c w) =
           (if truthy w then [] else [GET (search_url c)]) @
           GET u # map (\<lambda>p. HEAD (rstrip CHR ''/'' u @ p)) career_patterns"
  using find_career_page_via(2,3) [OF assms(1)] fetch_and_scan_fallback [OF assms(2,3,4), of c]
  by simp_all

lemma scan_links_skips_others:
  "scan_links env w links acc = scan_links env w (filter (is_career_link env) links) acc"
  by (induction links arbitrary: acc) (simp_all split: option.splits sum.splits)

text \<open>
  C4. Once the homepage is fetched and parsed, fallback probing is performed if and only
  if no anchor with an \<^verbatim>\<open>href\<close> passes the keyword test: in that case the HEAD requests
  issued are exactly the ten suffix probes, in order, and otherwise no HEAD request is
  issued at all. When some anchor passes, \<^verbatim>\<open>career_urls\<close> is the first three of the scan
  (none if the scan raised); with exactly one relevant anchor, no probe is issued and
  \<^verbatim>\<open>career_urls\<close> is that anchor's absolute URL alone.
\<close>

theorem probing_iff_scan_finds_nothing:
  assumes "homepage env c w = Some u"
    and "session_get env u = Inr r"
    and "html_anchors env (content r) = Inr soup"
  shows "(relevant_links env soup = [] \<longrightarrow>
            probed (fst (find_career_page env c w)) =
              map ((@) (rstrip CHR ''/'' u)) career_patterns) \<and>
         (relevant_links env soup \<noteq> [] \<longrightarrow> probed (fst (find_career_page env c w)) = []) \<and>
         ((\<exists>url. HEAD url \<in> set (fst (find_career_page env c w))) \<longleftrightarrow>
            relevant_links env soup = []) \<and>
         (relevant_links env soup \<noteq> [] \<longrightarrow>
            career_urls (snd (find_career_page env c w)) =
              (case scan_links env u (filter (\<lambda>a. attr_href a \<noteq> None) soup) [] of
                 Inl e \<Rightarrow> [] | Inr ls \<Rightarrow> take 3 ls)) \<and>
         (\<forall>a h full. relevant_links env soup = [a] \<and> attr_href a = Some h \<and>
              urljoin env u h = Inr full \<longrightarrow>
            probed (fst (find_career_page env c w)) = [] \<and>
            career_urls (snd (find_career_page env c w)) = [full])"
proof (cases "relevant_links env soup = []")
  case True
  note run = fallback_run(2) [OF assms True]
  have pr: "probed (fst (find_career_page env c w)) =
              map ((@) (rstrip CHR ''/'' u)) career_patterns"
    unfolding run by simp
  have "HEAD (rstrip CHR ''/'' u @ ''/careers'') \<in> set (fst (find_career_page env c w))"
    unfolding run by (simp add: career_patterns_def)
  then have "\<exists>url. HEAD url \<in> set (fst (find_career_page env c w))" ..
  with True pr show ?thesis by simp
next
  case False
  note found = fetch_and_scan_found [OF assms(2,3) False, of c]
  have no_head: "fst (find_career_page env c w) = (if truthy w then [] else [GET (search_url c)]) @ [GET u]"
    using find_career_page_via(3) [OF assms(1)] found(1) by simp
  have urls: "career_urls (snd (find_career_page env c w)) =
              (case scan_links env u (filter (\<lambda>a. attr_href a \<noteq> None) soup) [] of
                 Inl e \<Rightarrow> [] | Inr ls \<Rightarrow> take 3 ls)"
    using find_career_page_via(2) [OF assms(1)] found(2) by simp
  have one: "scan_links env u (filter (\<lambda>a. attr_href a \<noteq> None) soup) [] = Inr [full]"
    if rel: "relevant_links env soup = [a]" and h: "attr_href a = Some h"
      and j: "urljoin env u h = Inr full"
    for a h full
  proof -
    let ?links = "filter (\<lambda>a. attr_href a \<noteq> None) soup"
    have "x = a" if "x \<in> set ?links" "is_career_link env x" for x
    proof -
      from that have "x \<in> set (relevant_links env soup)" by (simp add: relevant_links_def)
      with rel show ?thesis by simp
    qed
    with h j have "\<forall>x \<in> set ?links. is_career_link env x \<longrightarrow>
             (\<exists>h full. attr_href x = Some h \<and> urljoin env u h = Inr full)"
      by blast
    from scan_links_resolved [OF this, of "[]"] rel h j show ?thesis
      by (simp add: relevant_links_def resolved_urls_def)
  qed
  have nh: "\<not> (\<exists>url. HEAD url \<in> set (fst (find_career_page env c w)))"
    by (simp add: no_head)
  have np: "probed (fst (find_career_page env c w)) = []"
    by (simp add: no_head)
  have single: "career_urls (snd (find_career_page env c w)) = [full]"
    if "relevant_links env soup = [a] \<and> attr_href a = Some h \<and> urljoin env u h = Inr full"
    for a h full
    using one [of a h full] that urls by simp
  from False nh np urls single show ?thesis by blast
qed

text \<open>
  The theorem at a homepage with the anchors "About" and "Careers" (one relevant link,
  no probe), and at a homepage without anchors (the ten suffixes are probed).
\<close>

theorem probing_iff_scan_finds_nothing_witness:
  "relevant_links acme_site [link ''/about'' ''About'', link ''/careers'' ''Careers''] =
     [link ''/careers'' ''Careers''] \<and>
   probed (fst (find_career_page acme_site ''Acme'' (Some ''https://acme.example''))) = [] \<and>
   career_urls (snd (find_career_page acme_site ''Acme'' (Some ''https://acme.example''))) =
     [''https://acme.example/careers''] \<and>
   relevant_links (bare_site ''https://acme.example'' only_jobs) [] = [] \<and>
   probed (fst (find_career_page (bare_site ''https://acme.example'' only_jobs)
                  ''Acme'' (Some ''https://acme.example''))) =
     [''https://acme.example/careers'', ''https://acme.example/career'',
      ''https://acme.example/jobs'', ''https://acme.example/job-opportunities'',
      ''https://acme.example/work-with-us'', ''https://acme.example/join-us'',
      ''https://acme.example/employment'', ''https://acme.example/opportunities'',
      ''https://acme.example/hiring'', ''https://acme.example/openings'']"
proof -
  let ?u = "''https://acme.example''"
  let ?body = "''<a href=/about>About</a><a href=/careers>Careers</a>''"
  let ?soup = "[link ''/about'' ''About'', link ''/careers'' ''Careers'']"
  have h: "homepage acme_site ''Acme'' (Some ?u) = Some ?u" by (simp add: homepage_def)
  have g: "session_get acme_site ?u = Inr \<lparr>status_code = 200, content = ?body\<rparr>"
    by (simp add: acme_site_def fixture_def)
  have p: "html_anchors acme_site (content \<lparr>status_code = 200, content = ?body\<rparr>) = Inr ?soup"
    by (simp add: acme_site_def fixture_def)
  have rel: "relevant_links acme_site ?soup = [link ''/careers'' ''Careers'']"
    by (simp add: relevant_links_def is_career_link_def career_keywords_def link_def
        get_text_def strip_def is_space_def
        acme_site_def fixture_def ascii_lower_def)
  have j: "urljoin acme_site ?u ''/careers'' = Inr ''https://acme.example/careers''"
    by (simp add: acme_site_def fixture_def urljoin_simple_def)
  have a: "attr_href (link ''/careers'' ''Careers'') = Some ''/careers''"
    by (simp add: link_def)
  note t = probing_iff_scan_finds_nothing [OF h g p]
  from t [THEN conjunct2, THEN conjunct2, THEN conjunct2, THEN conjunct2] rel a j
  have r1: "probed (fst (find_career_page acme_site ''Acme'' (Some ?u))) = [] \<and>
     career_urls (snd (find_career_page acme_site ''Acme'' (Some ?u))) =
       [''https://acme.example/careers'']"
    by blast
  let ?bare = "bare_site ?u only_jobs"
  have base: "rstrip CHR ''/'' ?u = ?u" by (simp add: rstrip_def)
  have h': "homepage ?bare ''Acme'' (Some ?u) = Some ?u" by (simp add: homepage_def)
  have g': "session_get ?bare ?u = Inr \<lparr>status_code = 200, content = ''<p>Welcome</p>''\<rparr>"
    by (simp add: bare_site_def fixture_def)
  have p': "html_anchors ?bare (content \<lparr>status_code = 200, content = ''<p>Welcome</p>''\<rparr>) = Inr []"
    by (simp add: bare_site_def fixture_def)
  have rel': "relevant_links ?bare [] = []" by (simp add: relevant_links_def)
  note t' = probing_iff_scan_finds_nothing [OF h' g' p']
  from t' [THEN conjunct1, THEN mp, OF rel']
  have r2: "probed (fst (find_career_page ?bare ''Acme'' (Some ?u))) =
     [''https://acme.example/careers'', ''https://acme.example/career'',
      ''https://acme.example/jobs'', ''https://acme.example/job-opportunities'',
      ''https://acme.example/work-with-us'', ''https://acme.example/join-us'',
      ''https://acme.example/employment'', ''https://acme.example/opportunities'',
      ''https://acme.example/hiring'', ''https://acme.example/openings'']"
    unfolding base by (simp add: career_patterns_def)
  show ?thesis
    by (intro conjI rel r1 [THEN conjunct1] r1 [THEN conjunct2] rel' r2)
qed

subsection \<open>The keyword test (C5)\<close>

lemma concat_nonempty: "concat (filter (\<lambda>s. s \<noteq> []) xs) = concat xs"
  by (induction xs) auto

lemma is_career_link_iff:
  "is_career_link env a \<longleftrightarrow>
     (\<exists>k \<in> set career_keywords.
        (\<exists>p q. str_lower env (case attr_href a of None \<Rightarrow> [] | Some h \<Rightarrow> h) = p @ k @ q) \<or>
        (\<exists>p q. str_lower env (concat (map strip (all_strings a))) = p @ k @ q))"
  by (simp add: is_career_link_def Let_def list_ex_iff py_in_iff get_text_def concat_nonempty)

text \<open>
  C5, as the code has it. Only the anchors that carry an \<^verbatim>\<open>href\<close> are examined, and the
  text examined is what \<^verbatim>\<open>get_text(strip=True)\<close> returns: the text strings of the anchor,
  each stripped of surrounding whitespace, joined without a separator. An anchor of the
  page is classified career-relevant if and only if it has an \<^verbatim>\<open>href\<close> and the
  lower-cased \<^verbatim>\<open>href\<close> or that lower-cased text contains one of the eight keywords as a
  substring; the scan of the page does what a scan of the classified anchors alone does.
  So an anchor with href \<^verbatim>\<open>/Careers-Info\<close> is relevant whatever its text, and an anchor
  with an \<^verbatim>\<open>href\<close> whose only text string is \<^verbatim>\<open>Join Us Today\<close> is relevant, given what
  \<^verbatim>\<open>str.lower\<close> returns on these two strings.
\<close>

theorem keyword_classification:
  "(a \<in> set (relevant_links env soup) \<longleftrightarrow>
      a \<in> set soup \<and>
      (\<exists>h. attr_href a = Some h \<and>
         (\<exists>k \<in> {''career'', ''job'', ''work with us'', ''join us'', ''employment'', ''hiring'',
                 ''opportunities'', ''openings''}.
            (\<exists>p q. str_lower env h = p @ k @ q) \<or>
            (\<exists>p q. str_lower env (concat (map strip (all_strings a))) = p @ k @ q)))) \<and>
   scan_links env u (filter (\<lambda>a. attr_href a \<noteq> None) soup) acc =
     scan_links env u (relevant_links env soup) acc \<and>
   (str_lower env ''/Careers-Info'' = ''/careers-info'' \<longrightarrow>
      is_career_link env \<lparr>attr_href = Some ''/Careers-Info'', attr_class = cls, all_strings = ss\<rparr>) \<and>
   (str_lower env ''Join Us Today'' = ''join us today'' \<longrightarrow>
      is_career_link env \<lparr>attr_href = Some h', attr_class = cls, all_strings = [''Join Us Today'']\<rparr>)"
proof -
  have kw: "set career_keywords =
      {''career'', ''job'', ''work with us'', ''join us'', ''employment'', ''hiring'',
       ''opportunities'', ''openings''}"
    by (simp add: career_keywords_def)
  have classified: "a \<in> set (relevant_links env soup) \<longleftrightarrow>
      a \<in> set soup \<and>
      (\<exists>h. attr_href a = Some h \<and>
         (\<exists>k \<in> set career_keywords.
            (\<exists>p q. str_lower env h = p @ k @ q) \<or>
            (\<exists>p q. str_lower env (concat (map strip (all_strings a))) = p @ k @ q)))"
  proof (cases "attr_href a")
    case None
    then show ?thesis by (simp add: relevant_links_def)
  next
    case (Some h)
    then show ?thesis by (simp add: relevant_links_def is_career_link_iff)
  qed
  have scan: "scan_links env u (filter (\<lambda>a. attr_href a \<noteq> None) soup) acc =
     scan_links env u (relevant_links env soup) acc"
    unfolding relevant_links_def by (rule scan_links_skips_others)
  have e1: "is_career_link env \<lparr>attr_href = Some ''/Careers-Info'', attr_class = cls, all_strings = ss\<rparr>"
    if "str_lower env ''/Careers-Info'' = ''/careers-info''"
  proof -
    have "''/careers-info'' = ''/'' @ ''career'' @ ''s-info''" by simp
    with that have "\<exists>p q. str_lower env ''/Careers-Info'' = p @ ''career'' @ q" by metis
    then show ?thesis
      unfolding is_career_link_iff by (intro bexI [of _ "''career''"]) (simp_all add: career_keywords_def)
  qed
  have e2: "is_career_link env \<lparr>attr_href = Some h', attr_class = cls, all_strings = [''Join Us Today'']\<rparr>"
    if "str_lower env ''Join Us Today'' = ''join us today''"
  proof -
    have st: "strip ''Join Us Today'' = ''Join Us Today''"
      by (simp add: strip_def is_space_def)
    have "''join us today'' = [] @ ''join us'' @ '' today''" by simp
    with that have "\<exists>p q. str_lower env ''Join Us Today'' = p @ ''join us'' @ q" by metis
    then show ?thesis
      unfolding is_career_link_iff
      by (intro bexI [of _ "''join us''"]) (simp_all add: career_keywords_def st)
  qed
  from classified [unfolded kw] scan e1 e2 show ?thesis by blast
qed

text \<open>The theorem at the two anchors of the claim, with ASCII lower-casing.\<close>

theorem keyword_classification_witness:
  "str_lower acme_site ''/Careers-Info'' = ''/careers-info'' \<and>
   is_career_link acme_site \<lparr>attr_href = Some ''/Careers-Info'', attr_class = [], all_strings = [''More'']\<rparr> \<and>
   str_lower acme_site ''Join Us Today'' = ''join us today'' \<and>
   is_career_link acme_site \<lparr>attr_href = Some ''/team'', attr_class = [], all_strings = [''Join Us Today'']\<rparr> \<and>
   \<not> is_career_link acme_site \<lparr>attr_href = Some ''/about'', attr_class = [], all_strings = [''About'']\<rparr>"
proof -
  have a: "str_lower acme_site ''/Careers-Info'' = ''/careers-info''"
    by (simp add: acme_site_def fixture_def ascii_lower_def)
  have b: "str_lower acme_site ''Join Us Today'' = ''join us today''"
    by (simp add: acme_site_def fixture_def ascii_lower_def)
  have c: "\<not> is_career_link acme_site \<lparr>attr_href = Some ''/about'', attr_class = [], all_strings = [''About'']\<rparr>"
    by (simp add: is_career_link_def career_keywords_def acme_site_def fixture_def ascii_lower_def
        get_text_def strip_def is_space_def)
  note t = keyword_classification [of _ acme_site "[]" _ "[]" "[]" "[''More'']" "''/team''"]
  from t [THEN conjunct2, THEN conjunct2, THEN conjunct1, THEN mp, OF a]
  have ra: "is_career_link acme_site \<lparr>attr_href = Some ''/Careers-Info'', attr_class = [], all_strings = [''More'']\<rparr>" .
  from t [THEN conjunct2, THEN conjunct2, THEN conjunct2, THEN mp, OF b]
  have rb: "is_career_link acme_site \<lparr>attr_href = Some ''/team'', attr_class = [], all_strings = [''Join Us Today'']\<rparr>" .
  show ?thesis by (intro conjI a ra b rb c)
qed

text \<open>
  C5 as the specification words it fails twice. The anchor
  \<^verbatim>\<open><a href=/team>Join <b>Us</b> Today</a>\<close> shows the text "Join Us Today", whose lower
  case contains "join us", and is not classified: \<^verbatim>\<open>get_text(strip=True)\<close> returns
  "JoinUsToday". The anchor \<^verbatim>\<open><a>Careers</a>\<close>, without \<^verbatim>\<open>href\<close>, is on the page, its
  lower-cased text contains "career", and it is not classified: the scan finds nothing and
  the ten suffixes are probed.
\<close>

theorem text_seen_and_anchor_without_href_counterexample:
  "visible_text nested_join_us = ''Join Us Today'' \<and>
   py_in ''join us'' (str_lower acme_site (visible_text nested_join_us)) \<and>
   get_text nested_join_us = ''JoinUsToday'' \<and>
   \<not> is_career_link acme_site nested_join_us \<and>
   py_in ''career'' (str_lower href_less_site (visible_text careers_without_href)) \<and>
   html_anchors href_less_site ''<a>Careers</a>'' = Inr [careers_without_href] \<and>
   relevant_links href_less_site [careers_without_href] = [] \<and>
   fst (find_career_page href_less_site ''Acme'' (Some ''https://acme.example'')) =
     GET ''https://acme.example'' # map (\<lambda>p. HEAD (''https://acme.example'' @ p)) career_patterns \<and>
   career_urls (snd (find_career_page href_less_site ''Acme'' (Some ''https://acme.example''))) = []"
proof -
  let ?u = "''https://acme.example''"
  let ?resp = "\<lparr>status_code = 200, content = ''<a>Careers</a>''\<rparr>"
  have v: "visible_text nested_join_us = ''Join Us Today''"
    by (simp add: visible_text_def nested_join_us_def)
  have v1: "py_in ''join us'' (str_lower acme_site (visible_text nested_join_us))"
    unfolding v by (simp add: acme_site_def fixture_def ascii_lower_def)
  have gt: "get_text nested_join_us = ''JoinUsToday''"
    by (simp add: get_text_def strip_def is_space_def nested_join_us_def)
  have n1: "\<not> is_career_link acme_site nested_join_us"
    unfolding is_career_link_def gt
    by (simp add: career_keywords_def nested_join_us_def acme_site_def fixture_def ascii_lower_def)
  have v2: "py_in ''career'' (str_lower href_less_site (visible_text careers_without_href))"
    by (simp add: visible_text_def careers_without_href_def href_less_site_def fixture_def ascii_lower_def)
  have h: "homepage href_less_site ''Acme'' (Some ?u) = Some ?u" by (simp add: homepage_def)
  have g: "session_get href_less_site ?u = Inr ?resp" by (simp add: href_less_site_def fixture_def)
  have p: "html_anchors href_less_site (content ?resp) = Inr [careers_without_href]"
    by (simp add: href_less_site_def fixture_def)
  then have p': "html_anchors href_less_site ''<a>Careers</a>'' = Inr [careers_without_href]"
    by simp
  have rel: "relevant_links href_less_site [careers_without_href] = []"
    by (simp add: relevant_links_def careers_without_href_def)
  have base: "rstrip CHR ''/'' ?u = ?u" by (simp add: rstrip_def)
  note run = fallback_run [OF h g p rel, unfolded base]
  have tr: "fst (find_career_page href_less_site ''Acme'' (Some ?u)) =
     GET ?u # map (\<lambda>p. HEAD (?u @ p)) career_patterns"
    unfolding run(2) by simp
  have "\<not> head_ok href_less_site url" for url
    by (simp add: head_ok_def href_less_site_def fixture_def)
  then have "filter (head_ok href_less_site) (map ((@) ?u) career_patterns) = []"
    by (simp add: filter_empty_conv)
  then have cu: "career_urls (snd (find_career_page href_less_site ''Acme'' (Some ?u))) = []"
    unfolding run(1) by simp
  show ?thesis by (intro conjI v v1 gt n1 v2 p' rel tr cu)
qed

subsection \<open>Fallback probing (C7)\<close>

lemma head_ok_iff:
  "head_ok env url \<longleftrightarrow> (\<exists>resp. session_head env url = Inr resp \<and> status_code resp = 200)"
  by (simp add: head_ok_def split: sum.splits)

lemma filter_only_jobs: "filter (\<lambda>p. p = ''/jobs'') career_patterns = [''/jobs'']"
  by (simp add: career_patterns_def)

text \<open>
  C7, as the code has it. In the fallback path every one of the ten suffixes is probed,
  whatever the earlier probes returned or raised. A suffix URL is a candidate if and only
  if its HEAD returns with status exactly 200, and \<^verbatim>\<open>career_urls\<close> is the first three
  candidates in suffix order. So with at most three candidates a suffix URL is in
  \<^verbatim>\<open>career_urls\<close> if and only if its probe returned 200; and when only the probe of
  \<^verbatim>\<open>/jobs\<close> counts, \<^verbatim>\<open>career_urls\<close> is that one URL.
\<close>

theorem fallback_keeps_first_three_ok_probes:
  assumes "homepage env c w = Some u"
    and "session_get env u = Inr r"
    and "html_anchors env (content r) = Inr soup"
    and "relevant_links env soup = []"
  shows "(\<forall>url. head_ok env url \<longleftrightarrow>
            (\<exists>resp. session_head env url = Inr resp \<and> status_code resp = 200)) \<and>
         career_urls (snd (find_career_page env c w)) =
           take 3 (filter (head_ok env) (map ((@) (rstrip CHR ''/'' u)) career_patterns)) \<and>
         (\<forall>p \<in> set career_patterns.
            HEAD (rstrip CHR ''/'' u @ p) \<in> set (fst (find_career_page env c w))) \<and>
         (length (filter (head_ok env) (map ((@) (rstrip CHR ''/'' u)) career_patterns)) \<le> 3 \<longrightarrow>
            (\<forall>p \<in> set career_patterns.
               rstrip CHR ''/'' u @ p \<in> set (career_urls (snd (find_career_page env c w))) \<longleftrightarrow>
               head_ok env (rstrip CHR ''/'' u @ p))) \<and>
         ((\<forall>p \<in> set career_patterns. head_ok env (rstrip CHR ''/'' u @ p) \<longleftrightarrow> p = ''/jobs'') \<longrightarrow>
            career_urls (snd (find_career_page env c w)) = [rstrip CHR ''/'' u @ ''/jobs''])"
proof -
  let ?base = "rstrip CHR ''/'' u"
  let ?cands = "filter (head_ok env) (map ((@) ?base) career_patterns)"
  note run = fallback_run [OF assms]
  have probes: "\<forall>p \<in> set career_patterns. HEAD (?base @ p) \<in> set (fst (find_career_page env c w))"
    by (simp add: run(2))
  have few: "\<forall>p \<in> set career_patterns.
               ?base @ p \<in> set (career_urls (snd (find_career_page env c w))) \<longleftrightarrow>
               head_ok env (?base @ p)"
    if "length ?cands \<le> 3"
  proof -
    from that have "take 3 ?cands = ?cands" by simp
    with run(1) have "set (career_urls (snd (find_career_page env c w))) = set ?cands"
      by simp
    then show ?thesis by auto
  qed
  have jobs: "career_urls (snd (find_career_page env c w)) = [?base @ ''/jobs'']"
    if only: "\<forall>p \<in> set career_patterns. head_ok env (?base @ p) \<longleftrightarrow> p = ''/jobs''"
  proof -
    have "?cands = map ((@) ?base) (filter (head_ok env \<circ> (@) ?base) career_patterns)"
      by (simp add: filter_map)
    also have "filter (head_ok env \<circ> (@) ?base) career_patterns =
               filter (\<lambda>p. p = ''/jobs'') career_patterns"
      using only by (intro filter_cong) auto
    finally have "?cands = [?base @ ''/jobs'']" by (simp add: filter_only_jobs)
    with run(1) show ?thesis by simp
  qed
  from head_ok_iff run(1) probes few jobs show ?thesis by blast
qed

text \<open>
  The theorem at a homepage without anchors where \<^verbatim>\<open>/jobs\<close> answers 200 and every other
  suffix 404, and at one where \<^verbatim>\<open>/careers\<close> answers 301 and the others time out.
\<close>

theorem fallback_keeps_first_three_ok_probes_witness:
  "relevant_links (bare_site ''https://acme.example'' only_jobs) [] = [] \<and>
   list_all (\<lambda>p. head_ok (bare_site ''https://acme.example'' only_jobs) (''https://acme.example'' @ p)
                   = (p = ''/jobs'')) career_patterns \<and>
   career_urls (snd (find_career_page (bare_site ''https://acme.example'' only_jobs) ''Acme''
                       (Some ''https://acme.example''))) = [''https://acme.example/jobs''] \<and>
   session_head jobs_or_timeout ''https://acme.example/careers'' =
     Inr \<lparr>status_code = 301, content = []\<rparr> \<and>
   session_head jobs_or_timeout ''https://acme.example/career'' = Inl Timeout \<and>
   career_urls (snd (find_career_page jobs_or_timeout ''Acme'' (Some ''https://acme.example/''))) =
     [''https://acme.example/jobs'']"
proof -
  let ?u = "''https://acme.example''"
  let ?env = "bare_site ?u only_jobs"
  let ?resp = "\<lparr>status_code = 200, content = ''<p>Welcome</p>''\<rparr>"
  have base: "rstrip CHR ''/'' ?u = ?u" by (simp add: rstrip_def)
  have h: "homepage ?env ''Acme'' (Some ?u) = Some ?u" by (simp add: homepage_def)
  have g: "session_get ?env ?u = Inr ?resp" by (simp add: bare_site_def fixture_def)
  have p: "html_anchors ?env (content ?resp) = Inr []" by (simp add: bare_site_def fixture_def)
  have rel: "relevant_links ?env [] = []" by (simp add: relevant_links_def)
  have only: "list_all (\<lambda>p. head_ok ?env (?u @ p) = (p = ''/jobs'')) career_patterns"
    by (simp add: career_patterns_def head_ok_def bare_site_def fixture_def only_jobs_def)
  have pre: "\<forall>p \<in> set career_patterns. head_ok ?env (rstrip CHR ''/'' ?u @ p) \<longleftrightarrow> p = ''/jobs''"
    unfolding base using only by (simp only: list_all_iff)
  note t = fallback_keeps_first_three_ok_probes [OF h g p rel]
  from t [THEN conjunct2, THEN conjunct2, THEN conjunct2, THEN conjunct2, THEN mp, OF pre]
  have r1: "career_urls (snd (find_career_page ?env ''Acme'' (Some ?u))) = [''https://acme.example/jobs'']"
    unfolding base by simp
  let ?v = "''https://acme.example/''"
  have base': "rstrip CHR ''/'' ?v = ?u" by (simp add: rstrip_def)
  have h': "homepage jobs_or_timeout ''Acme'' (Some ?v) = Some ?v" by (simp add: homepage_def)
  have g': "session_get jobs_or_timeout ?v = Inr ?resp"
    by (simp add: jobs_or_timeout_def bare_site_def fixture_def)
  have p': "html_anchors jobs_or_timeout (content ?resp) = Inr []"
    by (simp add: jobs_or_timeout_def bare_site_def fixture_def)
  have rel': "relevant_links jobs_or_timeout [] = []" by (simp add: relevant_links_def)
  have s1: "session_head jobs_or_timeout ''https://acme.example/careers'' =
     Inr \<lparr>status_code = 301, content = []\<rparr>"
    and s2: "session_head jobs_or_timeout ''https://acme.example/career'' = Inl Timeout"
    by (simp_all add: jobs_or_timeout_def bare_site_def fixture_def)
  have only': "list_all (\<lambda>p. head_ok jobs_or_timeout (?u @ p) = (p = ''/jobs'')) career_patterns"
    by (simp add: career_patterns_def head_ok_def jobs_or_timeout_def bare_site_def fixture_def)
  have pre': "\<forall>p \<in> set career_patterns. head_ok jobs_or_timeout (rstrip CHR ''/'' ?v @ p) \<longleftrightarrow> p = ''/jobs''"
    unfolding base' using only' by (simp only: list_all_iff)
  note t' = fallback_keeps_first_three_ok_probes [OF h' g' p' rel']
  from t' [THEN conjunct2, THEN conjunct2, THEN conjunct2, THEN conjunct2, THEN mp, OF pre']
  have r2: "career_urls (snd (find_career_page jobs_or_timeout ''Acme'' (Some ?v))) = [''https://acme.example/jobs'']"
    unfolding base' by simp
  show ?thesis
    by (intro conjI rel only r1 s1 s2 r2)
qed

text \<open>
  C7 as the specification words it fails when more than three probes succeed: with
  every suffix answering 200, \<^verbatim>\<open>/job-opportunities\<close> is probed, answers 200, and is not
  in \<^verbatim>\<open>career_urls\<close>.
\<close>

theorem fourth_ok_probe_dropped_counterexample:
  "relevant_links (bare_site ''https://acme.example'' all_ok) [] = [] \<and>
   HEAD ''https://acme.example/job-opportunities''
     \<in> set (fst (find_career_page (bare_site ''https://acme.example'' all_ok) ''Acme''
                   (Some ''https://acme.example''))) \<and>
   session_head (bare_site ''https://acme.example'' all_ok) ''https://acme.example/job-opportunities'' =
     Inr \<lparr>status_code = 200, content = []\<rparr> \<and>
   ''https://acme.example/job-opportunities''
     \<notin> set (career_urls (snd (find_career_page (bare_site ''https://acme.example'' all_ok) ''Acme''
                               (Some ''https://acme.example'')))) \<and>
   career_urls (snd (find_career_page (bare_site ''https://acme.example'' all_ok) ''Acme''
                       (Some ''https://acme.example''))) =
     [''https://acme.example/careers'', ''https://acme.example/career'', ''https://acme.example/jobs'']"
proof -
  let ?u = "''https://acme.example''"
  let ?env = "bare_site ?u all_ok"
  let ?resp = "\<lparr>status_code = 200, content = ''<p>Welcome</p>''\<rparr>"
  have base: "rstrip CHR ''/'' ?u = ?u" by (simp add: rstrip_def)
  have h: "homepage ?env ''Acme'' (Some ?u) = Some ?u" by (simp add: homepage_def)
  have g: "session_get ?env ?u = Inr ?resp" by (simp add: bare_site_def fixture_def)
  have p: "html_anchors ?env (content ?resp) = Inr []" by (simp add: bare_site_def fixture_def)
  have rel: "relevant_links ?env [] = []" by (simp add: relevant_links_def)
  have s: "session_head ?env ''https://acme.example/job-opportunities'' =
     Inr \<lparr>status_code = 200, content = []\<rparr>"
    by (simp add: career_patterns_def bare_site_def fixture_def all_ok_def)
  have "list_all (\<lambda>p. head_ok ?env (?u @ p)) career_patterns"
    by (simp add: career_patterns_def head_ok_def bare_site_def fixture_def all_ok_def)
  then have "\<forall>url \<in> set (map ((@) ?u) career_patterns). head_ok ?env url"
    by (simp only: list_all_iff set_map ball_simps)
  then have cands: "filter (head_ok ?env) (map ((@) ?u) career_patterns) = map ((@) ?u) career_patterns"
    by (rule filter_True)
  note run = fallback_run [OF h g p rel, unfolded base cands]
  have urls: "career_urls (snd (find_career_page ?env ''Acme'' (Some ?u))) =
     [''https://acme.example/careers'', ''https://acme.example/career'', ''https://acme.example/jobs'']"
    unfolding run(1) by (simp add: career_patterns_def)
  have absent: "''https://acme.example/job-opportunities''
     \<notin> set (career_urls (snd (find_career_page ?env ''Acme'' (Some ?u))))"
    unfolding urls by simp
  have issued: "HEAD ''https://acme.example/job-opportunities''
     \<in> set (fst (find_career_page ?env ''Acme'' (Some ?u)))"
    unfolding run(2) by (simp add: career_patterns_def)
  show ?thesis
    by (intro conjI rel issued s absent urls)
qed

subsection \<open>Where the probes go (C10)\<close>

lemma rstrip_decompose: "\<exists>n. s = rstrip c s @ replicate n c"
proof -
  let ?P = "\<lambda>x. x = c"
  let ?n = "length (takeWhile ?P (rev s))"
  have "rev s = takeWhile ?P (rev s) @ dropWhile ?P (rev s)" by simp
  then have split: "s = rev (dropWhile ?P (rev s)) @ rev (takeWhile ?P (rev s))"
    by (metis rev_append rev_rev_ident)
  have "takeWhile ?P (rev s) = replicate ?n c"
    by (rule replicate_length_same [symmetric]) (auto dest: set_takeWhileD)
  then have "rev (takeWhile ?P (rev s)) = replicate ?n c"
    by (metis rev_replicate)
  with split have "s = rstrip c s @ replicate ?n c"
    by (simp only: rstrip_def)
  then show ?thesis ..
qed

lemma rstrip_no_trailing: "\<not> suffix [c] (rstrip c s)"
proof
  assume "suffix [c] (rstrip c s)"
  then obtain p where "rstrip c s = p @ [c]" by (auto simp: suffix_def)
  then have "dropWhile (\<lambda>x. x = c) (rev s) = c # rev p"
    by (metis rstrip_def rev_rev_ident rev_append rev.simps append_Nil append_Cons)
  then show False by (metis (full_types) hd_dropWhile list.sel(1) list.distinct(1))
qed

text \<open>
  C10. In the fallback path the probed URLs are, in order, the ten suffixes appended to
  the whole homepage URL with its trailing slashes removed: only slashes are removed, and
  all of them. The path of the homepage stays, so for \<^verbatim>\<open>https://x.com/en/home\<close> the probes
  go to \<^verbatim>\<open>https://x.com/en/home/careers\<close> and so on, not to the root of the site.
\<close>

theorem probes_append_to_stripped_homepage:
  assumes "homepage env c w = Some u"
    and "session_get env u = Inr r"
    and "html_anchors env (content r) = Inr soup"
    and "relevant_links env soup = []"
  shows "probed (fst (find_career_page env c w)) = map ((@) (rstrip CHR ''/'' u)) career_patterns \<and>
         (\<exists>n. u = rstrip CHR ''/'' u @ replicate n CHR ''/'') \<and>
         \<not> suffix ''/'' (rstrip CHR ''/'' u) \<and>
         (u = ''https://x.com/en/home'' \<longrightarrow>
            probed (fst (find_career_page env c w)) =
              [''https://x.com/en/home/careers'', ''https://x.com/en/home/career'',
               ''https://x.com/en/home/jobs'', ''https://x.com/en/home/job-opportunities'',
               ''https://x.com/en/home/work-with-us'', ''https://x.com/en/home/join-us'',
               ''https://x.com/en/home/employment'', ''https://x.com/en/home/opportunities'',
               ''https://x.com/en/home/hiring'', ''https://x.com/en/home/openings''])"
proof -
  have tr: "probed (fst (find_career_page env c w)) = map ((@) (rstrip CHR ''/'' u)) career_patterns"
    unfolding fallback_run(2) [OF assms] by simp
  have ex: "u = ''https://x.com/en/home'' \<longrightarrow>
            probed (fst (find_career_page env c w)) =
              [''https://x.com/en/home/careers'', ''https://x.com/en/home/career'',
               ''https://x.com/en/home/jobs'', ''https://x.com/en/home/job-opportunities'',
               ''https://x.com/en/home/work-with-us'', ''https://x.com/en/home/join-us'',
               ''https://x.com/en/home/employment'', ''https://x.com/en/home/opportunities'',
               ''https://x.com/en/home/hiring'', ''https://x.com/en/home/openings'']"
  proof
    assume u: "u = ''https://x.com/en/home''"
    have "rstrip CHR ''/'' ''https://x.com/en/home'' = ''https://x.com/en/home''"
      by (simp add: rstrip_def)
    with tr u show "probed (fst (find_career_page env c w)) =
              [''https://x.com/en/home/careers'', ''https://x.com/en/home/career'',
               ''https://x.com/en/home/jobs'', ''https://x.com/en/home/job-opportunities'',
               ''https://x.com/en/home/work-with-us'', ''https://x.com/en/home/join-us'',
               ''https://x.com/en/home/employment'', ''https://x.com/en/home/opportunities'',
               ''https://x.com/en/home/hiring'', ''https://x.com/en/home/openings'']"
      by (simp add: career_patterns_def)
  qed
  from tr rstrip_decompose [of u "CHR ''/''"] rstrip_no_trailing [of "CHR ''/''" u] ex
  show ?thesis by (intro conjI)
qed

text \<open>
  The theorem at the homepage \<^verbatim>\<open>https://x.com/en/home\<close>, without anchors: the site root's
  \<^verbatim>\<open>/careers\<close> is never probed.
\<close>

theorem probes_append_to_stripped_homepage_witness:
  "relevant_links deep_site [] = [] \<and>
   probed (fst (find_career_page deep_site ''X'' (Some ''https://x.com/en/home''))) =
     [''https://x.com/en/home/careers'', ''https://x.com/en/home/career'',
      ''https://x.com/en/home/jobs'', ''https://x.com/en/home/job-opportunities'',
      ''https://x.com/en/home/work-with-us'', ''https://x.com/en/home/join-us'',
      ''https://x.com/en/home/employment'', ''https://x.com/en/home/opportunities'',
      ''https://x.com/en/home/hiring'', ''https://x.com/en/home/openings''] \<and>
   HEAD ''https://x.com/careers''
     \<notin> set (fst (find_career_page deep_site ''X'' (Some ''https://x.com/en/home'')))"
proof -
  let ?u = "''https://x.com/en/home''"
  let ?resp = "\<lparr>status_code = 200, content = ''<p>Welcome</p>''\<rparr>"
  have h: "homepage deep_site ''X'' (Some ?u) = Some ?u" by (simp add: homepage_def)
  have g: "session_get deep_site ?u = Inr ?resp"
    by (simp add: deep_site_def bare_site_def fixture_def)
  have p: "html_anchors deep_site (content ?resp) = Inr []"
    by (simp add: deep_site_def bare_site_def fixture_def)
  have rel: "relevant_links deep_site [] = []" by (simp add: relevant_links_def)
  note t = probes_append_to_stripped_homepage [OF h g p rel]
  from t [THEN conjunct2, THEN conjunct2, THEN conjunct2, THEN mp, OF refl]
  have pr: "probed (fst (find_career_page deep_site ''X'' (Some ?u))) =
     [''https://x.com/en/home/careers'', ''https://x.com/en/home/career'',
      ''https://x.com/en/home/jobs'', ''https://x.com/en/home/job-opportunities'',
      ''https://x.com/en/home/work-with-us'', ''https://x.com/en/home/join-us'',
      ''https://x.com/en/home/employment'', ''https://x.com/en/home/opportunities'',
      ''https://x.com/en/home/hiring'', ''https://x.com/en/home/openings'']" .
  have mem: "HEAD url \<in> set reqs \<longleftrightarrow> url \<in> set (probed reqs)" for url reqs
    by (induction reqs rule: probed.induct) auto
  have no: "HEAD ''https://x.com/careers''
     \<notin> set (fst (find_career_page deep_site ''X'' (Some ?u)))"
    unfolding mem pr by simp
  show ?thesis by (intro conjI rel pr no)
qed

subsection \<open>Determinism (C9)\<close>

lemma is_career_link_cong:
  "str_lower e1 = str_lower e2 \<Longrightarrow> is_career_link e1 a = is_career_link e2 a"
  by (simp add: is_career_link_def)

lemma scan_links_cong:
  assumes "str_lower e1 = str_lower e2" and "urljoin e1 = urljoin e2"
  shows "scan_links e1 w links acc = scan_links e2 w links acc"
  using assms
  by (induction links arbitrary: acc)
     (simp_all add: is_career_link_cong [of e1 e2] split: option.splits sum.splits)

lemma search_cong:
  assumes "html_anchors e1 = html_anchors e2"
    and "session_get e1 (search_url c) = session_get e2 (search_url c)"
  shows "search_company_website e1 c = search_company_website e2 c"
  unfolding search_company_website_def search_try_def assms by (rule refl)

lemma probe_patterns_cong:
  assumes "\<forall>p \<in> set ps. session_head e1 (b @ p) = session_head e2 (b @ p)"
  shows "probe_patterns e1 b ps acc = probe_patterns e2 b ps acc"
proof -
  have "filter (head_ok e1) (map ((@) b) ps) = filter (head_ok e2) (map ((@) b) ps)"
    using assms by (intro filter_cong) (auto simp: head_ok_def)
  then show ?thesis by (simp add: probe_patterns_eq)
qed

lemma fetch_and_scan_first_request: "\<exists>reqs. fst (fetch_and_scan env c u) = GET u # reqs"
  by (simp add: fetch_and_scan_def Let_def split: sum.splits prod.splits)

lemma fetch_and_scan_cong:
  assumes libs: "html_anchors e1 = html_anchors e2" "urljoin e1 = urljoin e2"
      "str_lower e1 = str_lower e2"
    and same: "\<forall>r \<in> set (fst (fetch_and_scan e1 c u)). same_response e1 e2 r"
  shows "fetch_and_scan e2 c u = fetch_and_scan e1 c u"
proof -
  from fetch_and_scan_first_request [of e1 c u] same
  have get: "session_get e2 u = session_get e1 u" by auto
  show ?thesis
  proof (cases "session_get e1 u")
    case (Inl e)
    with get show ?thesis by (simp add: fetch_and_scan_def)
  next
    case (Inr r)
    note resp = this
    show ?thesis
    proof (cases "html_anchors e1 (content r)")
      case (Inl e)
      with resp get libs(1) show ?thesis by (simp add: fetch_and_scan_def)
    next
      case (Inr soup)
      note parsed = this
      let ?links = "filter (\<lambda>a. attr_href a \<noteq> None) soup"
      have scan: "scan_links e2 u ?links [] = scan_links e1 u ?links []"
        using scan_links_cong [OF libs(3) libs(2)] by simp
      show ?thesis
      proof (cases "scan_links e1 u ?links []")
        case (Inl e)
        with resp parsed get libs(1) scan show ?thesis by (simp add: fetch_and_scan_def)
      next
        case (Inr ls)
        show ?thesis
        proof (cases "ls = []")
          case False
          with Inr resp parsed get libs(1) scan show ?thesis by (simp add: fetch_and_scan_def)
        next
          case True
          with Inr resp parsed
          have "fst (fetch_and_scan e1 c u) =
                  GET u # map (\<lambda>p. HEAD (rstrip CHR ''/'' u @ p)) career_patterns"
            by (simp add: fetch_and_scan_def probe_patterns_eq Let_def)
          with same have "\<forall>p \<in> set career_patterns.
              session_head e1 (rstrip CHR ''/'' u @ p) = session_head e2 (rstrip CHR ''/'' u @ p)"
            by simp
          from probe_patterns_cong [OF this]
          have "probe_patterns e2 (rstrip CHR ''/'' u) career_patterns [] =
                probe_patterns e1 (rstrip CHR ''/'' u) career_patterns []"
            by simp
          with True Inr resp parsed get libs(1) scan show ?thesis
            by (simp add: fetch_and_scan_def)
        qed
      qed
    qed
  qed
qed

text \<open>
  C9. Two runs of \<^verbatim>\<open>find_career_page\<close> on the same company name and the same homepage
  argument, with the same libraries, return the same result (and issue the same
  requests) as soon as the network answers the second run as it answered the first on
  every request the first run issued: the page fetched, and in the fallback path the
  probes. What the network would answer to any other request has no influence.
\<close>

theorem same_responses_same_result:
  assumes "html_anchors e1 = html_anchors e2" and "urljoin e1 = urljoin e2"
    and "str_lower e1 = str_lower e2"
    and "\<forall>r \<in> set (fst (find_career_page e1 c w)). same_response e1 e2 r"
  shows "find_career_page e2 c w = find_career_page e1 c w"
proof (cases "truthy w")
  case True
  then obtain u where w: "w = Some u" "u \<noteq> []" by (cases w) auto
  then have eq: "find_career_page e c w = fetch_and_scan e c u" for e
    by (simp add: find_career_page_def)
  from assms(4) have "\<forall>r \<in> set (fst (fetch_and_scan e1 c u)). same_response e1 e2 r"
    by (simp add: eq)
  from fetch_and_scan_cong [OF assms(1,2,3) this] show ?thesis by (simp add: eq)
next
  case False
  have first: "\<exists>reqs. fst (find_career_page e1 c w) = GET (search_url c) # reqs"
    using False
    by (simp add: find_career_page_def search_company_website_def Let_def
        split: sum.splits option.splits prod.splits)
  with assms(4) have "session_get e1 (search_url c) = session_get e2 (search_url c)" by auto
  from search_cong [OF assms(1) this]
  have search: "search_company_website e2 c = search_company_website e1 c" by simp
  show ?thesis
  proof (cases "snd (search_company_website e1 c)")
    case (Inl e)
    with search_never_raises [of e1 c] show ?thesis by simp
  next
    case (Inr found)
    then have s1: "search_company_website e1 c = ([GET (search_url c)], Inr found)"
      by (simp add: search_company_website_def)
    show ?thesis
    proof (cases "truthy found")
      case False
      with \<open>\<not> truthy w\<close> s1 search show ?thesis
        by (cases found) (simp_all add: find_career_page_def)
    next
      case True
      then obtain u where f: "found = Some u" "u \<noteq> []" by (cases found) auto
      have eq: "find_career_page e c w =
                  (GET (search_url c) # fst (fetch_and_scan e c u), snd (fetch_and_scan e c u))"
        if "search_company_website e c = ([GET (search_url c)], Inr found)" for e
        using that f \<open>\<not> truthy w\<close>
        by (simp add: find_career_page_def split: prod.splits)
      from assms(4) have "\<forall>r \<in> set (fst (fetch_and_scan e1 c u)). same_response e1 e2 r"
        by (simp add: eq [OF s1])
      from fetch_and_scan_cong [OF assms(1,2,3) this] s1 search show ?thesis
        by (simp add: eq)
    qed
  qed
qed

text \<open>
  The theorem at two networks that serve the same Acme homepage and differ elsewhere
  (another site, and the answer to a probe that is not issued).
\<close>

theorem same_responses_same_result_witness:
  "session_get acme_mirror ''https://other.example'' \<noteq> session_get acme_site ''https://other.example'' \<and>
   session_head acme_mirror ''https://acme.example/jobs'' \<noteq> session_head acme_site ''https://acme.example/jobs'' \<and>
   fst (find_career_page acme_site ''Acme'' (Some ''https://acme.example'')) = [GET ''https://acme.example''] \<and>
   session_get acme_mirror ''https://acme.example'' = session_get acme_site ''https://acme.example'' \<and>
   find_career_page acme_mirror ''Acme Corp'' (Some ''https://acme.example'') =
     find_career_page acme_site ''Acme Corp'' (Some ''https://acme.example'')"
proof -
  let ?u = "''https://acme.example''"
  let ?body = "''<a href=/about>About</a><a href=/careers>Careers</a>''"
  let ?soup = "[link ''/about'' ''About'', link ''/careers'' ''Careers'']"
  have d1: "session_get acme_mirror ''https://other.example'' \<noteq> session_get acme_site ''https://other.example''"
    by (simp add: acme_site_def acme_mirror_def fixture_def)
  have d2: "session_head acme_mirror ''https://acme.example/jobs'' \<noteq> session_head acme_site ''https://acme.example/jobs''"
    by (simp add: acme_site_def acme_mirror_def fixture_def)
  have l1: "html_anchors acme_site = html_anchors acme_mirror"
    and l2: "urljoin acme_site = urljoin acme_mirror"
    and l3: "str_lower acme_site = str_lower acme_mirror"
    by (simp_all add: acme_site_def acme_mirror_def fixture_def)
  have g: "session_get acme_site ?u = Inr \<lparr>status_code = 200, content = ?body\<rparr>"
    by (simp add: acme_site_def fixture_def)
  have g': "session_get acme_mirror ?u = session_get acme_site ?u"
    by (simp add: acme_site_def acme_mirror_def fixture_def)
  have p: "html_anchors acme_site (content \<lparr>status_code = 200, content = ?body\<rparr>) = Inr ?soup"
    by (simp add: acme_site_def fixture_def)
  have rel: "relevant_links acme_site ?soup \<noteq> []"
    by (simp add: relevant_links_def is_career_link_def career_keywords_def link_def
        get_text_def strip_def is_space_def
        acme_site_def fixture_def ascii_lower_def)
  have tr: "fst (find_career_page acme_site c (Some ?u)) = [GET ?u]" for c
    using fetch_and_scan_found(1) [OF g p rel, of c] by (simp add: find_career_page_def)
  have "\<forall>r \<in> set (fst (find_career_page acme_site ''Acme Corp'' (Some ?u))).
          same_response acme_site acme_mirror r"
    unfolding tr using g' by simp
  from same_responses_same_result [OF l1 l2 l3 this] d1 d2 tr [of "''Acme''"] g'
  show ?thesis by (intro conjI)
qed

subsection \<open>Deduplication and order (C6)\<close>

lemma set_first_seen [simp]: "set (first_seen xs) = set xs"
  by (induction xs rule: first_seen.induct) auto

lemma distinct_first_seen [simp]: "distinct (first_seen xs)"
  by (induction xs rule: first_seen.induct) auto

lemma length_first_seen: "length (first_seen xs) = card (set xs)"
  by (metis distinct_card distinct_first_seen set_first_seen)

lemma takeWhile_filter_commute:
  "x \<noteq> y \<Longrightarrow> takeWhile (\<lambda>z. z \<noteq> x) (filter (\<lambda>z. z \<noteq> y) ys) =
     filter (\<lambda>z. z \<noteq> y) (takeWhile (\<lambda>z. z \<noteq> x) ys)"
proof (induction ys)
  case Nil
  then show ?case by simp
next
  case (Cons a ys)
  then show ?case by (cases "a = x"; cases "a = y") simp_all
qed

lemma takeWhile_first_seen:
  "takeWhile (\<lambda>z. z \<noteq> x) (first_seen xs) = first_seen (takeWhile (\<lambda>z. z \<noteq> x) xs)"
proof (induction xs rule: first_seen.induct)
  case 1
  then show ?case by simp
next
  case (2 y ys)
  show ?case
  proof (cases "y = x")
    case True
    then show ?thesis by simp
  next
    case False
    then have "x \<noteq> y" by simp
    with 2 False show ?thesis by (simp add: takeWhile_filter_commute)
  qed
qed

lemma first_seen_position:
  assumes "x \<in> set xs"
  defines "n \<equiv> card (set (takeWhile (\<lambda>z. z \<noteq> x) xs))"
  shows "n < length (first_seen xs)" and "first_seen xs ! n = x"
proof -
  let ?ds = "first_seen xs"
  have n: "n = length (takeWhile (\<lambda>z. z \<noteq> x) ?ds)"
    by (simp add: n_def takeWhile_first_seen length_first_seen)
  from assms(1) have "x \<in> set ?ds" by simp
  then have "takeWhile (\<lambda>z. z \<noteq> x) ?ds \<noteq> ?ds"
    by (metis (mono_tags, lifting) set_takeWhileD)
  then have "length (takeWhile (\<lambda>z. z \<noteq> x) ?ds) < length ?ds"
    by (metis length_takeWhile_le le_neq_implies_less takeWhile_eq_take take_all_iff le_refl)
  with n show lt: "n < length ?ds" by simp
  from nth_length_takeWhile [of "\<lambda>z. z \<noteq> x" ?ds] lt n show "?ds ! n = x" by simp
qed

lemma take_first_seen:
  fixes k :: nat
  assumes "x \<in> set xs"
  defines "n \<equiv> card (set (takeWhile (\<lambda>z. z \<noteq> x) xs))"
  defines "cu \<equiv> take k (first_seen xs)"
  shows "n < k \<longrightarrow> n < length cu \<and> cu ! n = x \<and> count_list cu x = 1"
    and "k \<le> n \<longrightarrow> x \<notin> set cu"
proof -
  let ?ds = "first_seen xs"
  have lt: "n < length ?ds" and at: "?ds ! n = x"
    using first_seen_position [OF assms(1)] by (simp_all add: n_def)
  have dcu: "distinct cu" by (simp add: cu_def)
  show "n < k \<longrightarrow> n < length cu \<and> cu ! n = x \<and> count_list cu x = 1"
  proof
    assume "n < k"
    with lt have len: "n < length cu" by (simp add: cu_def)
    with at \<open>n < k\<close> have nth: "cu ! n = x" by (simp add: cu_def)
    with len have "x \<in> set cu" by (metis nth_mem)
    with dcu have "count_list cu x = 1"
      by (induction cu) (auto simp: count_list_0_iff)
    with len nth show "n < length cu \<and> cu ! n = x \<and> count_list cu x = 1" by simp
  qed
  show "k \<le> n \<longrightarrow> x \<notin> set cu"
  proof
    assume "k \<le> n"
    show "x \<notin> set cu"
    proof
      assume "x \<in> set cu"
      then obtain i where i: "i < length cu" "cu ! i = x" by (auto simp: in_set_conv_nth)
      then have "i < k" "i < length ?ds" "?ds ! i = x" by (simp_all add: cu_def)
      with lt at have "i = n"
        using nth_eq_iff_index_eq [OF distinct_first_seen, of i xs n] by simp
      with \<open>i < k\<close> \<open>k \<le> n\<close> show False by simp
    qed
  qed
qed

lemma scan_then_cut:
  assumes "homepage env c w = Some u"
    and "session_get env u = Inr r"
    and "html_anchors env (content r) = Inr soup"
    and "\<forall>a \<in> set (relevant_links env soup).
           \<exists>h full. attr_href a = Some h \<and> urljoin env u h = Inr full"
    and "relevant_links env soup \<noteq> []"
  shows "career_urls (snd (find_career_page env c w)) =
           take 3 (first_seen (resolved_urls env u (relevant_links env soup)))"
proof -
  let ?links = "filter (\<lambda>a. attr_href a \<noteq> None) soup"
  from assms(4) have "\<forall>a \<in> set ?links. is_career_link env a \<longrightarrow>
             (\<exists>h full. attr_href a = Some h \<and> urljoin env u h = Inr full)"
    by (simp add: relevant_links_def)
  from scan_links_resolved [OF this, of "[]"]
  have "scan_links env u ?links [] =
          Inr (first_seen (resolved_urls env u (relevant_links env soup)))"
    by (simp add: relevant_links_def)
  with fetch_and_scan_found(2) [OF assms(2,3,5), of c] find_career_page_via(2) [OF assms(1)]
  show ?thesis by simp
qed

text \<open>
  C6, as the code has it. When the page is fetched and parsed, some anchor is relevant
  and \<^verbatim>\<open>urljoin\<close> resolves every relevant reference, \<^verbatim>\<open>career_urls\<close> is the first three
  entries of the first-occurrence deduplication of the resolved URLs. It has no
  duplicates. A URL that fewer than three distinct URLs precede in page order stands in
  \<^verbatim>\<open>career_urls\<close> exactly once, at the position given by the number of distinct URLs
  before its first occurrence; a URL that three or more distinct URLs precede is absent.
\<close>

theorem duplicates_kept_once_within_first_three:
  assumes "homepage env c w = Some u"
    and "session_get env u = Inr r"
    and "html_anchors env (content r) = Inr soup"
    and "\<forall>a \<in> set (relevant_links env soup).
           \<exists>h full. attr_href a = Some h \<and> urljoin env u h = Inr full"
    and "relevant_links env soup \<noteq> []"
  defines "urls \<equiv> resolved_urls env u (relevant_links env soup)"
  defines "cu \<equiv> career_urls (snd (find_career_page env c w))"
  shows "cu = take 3 (first_seen urls) \<and> distinct cu \<and> set cu \<subseteq> set urls \<and>
         length cu = min 3 (card (set urls)) \<and>
         (\<forall>url \<in> set urls.
            (card (set (takeWhile (\<lambda>z. z \<noteq> url) urls)) < 3 \<longrightarrow>
               cu ! card (set (takeWhile (\<lambda>z. z \<noteq> url) urls)) = url \<and> count_list cu url = 1) \<and>
            (3 \<le> card (set (takeWhile (\<lambda>z. z \<noteq> url) urls)) \<longrightarrow> url \<notin> set cu))"
proof -
  have cut: "cu = take 3 (first_seen urls)"
    unfolding cu_def urls_def by (rule scan_then_cut [OF assms(1-5)])
  have d: "distinct cu" by (simp add: cut)
  have sub: "set cu \<subseteq> set urls"
    unfolding cut using set_take_subset [of 3 "first_seen urls"] by simp
  have len: "length cu = min 3 (card (set urls))"
    by (simp add: cut length_first_seen min.commute)
  have pos: "(card (set (takeWhile (\<lambda>z. z \<noteq> url) urls)) < 3 \<longrightarrow>
               cu ! card (set (takeWhile (\<lambda>z. z \<noteq> url) urls)) = url \<and> count_list cu url = 1) \<and>
            (3 \<le> card (set (takeWhile (\<lambda>z. z \<noteq> url) urls)) \<longrightarrow> url \<notin> set cu)"
    if "url \<in> set urls" for url
    using take_first_seen [OF that, of 3] unfolding cut by blast
  from cut d sub len pos show ?thesis by blast
qed

text \<open>
  The theorem at a page whose first and last relevant anchors both resolve to
  \<^verbatim>\<open>/careers\<close>: the URL is kept once, in first place.
\<close>

theorem duplicates_kept_once_within_first_three_witness:
  "resolved_urls repeated_site ''https://acme.example'' (relevant_links repeated_site repeated_page) =
     [''https://acme.example/careers'', ''https://acme.example/jobs'', ''https://acme.example/careers''] \<and>
   career_urls (snd (find_career_page repeated_site ''Acme'' (Some ''https://acme.example''))) =
     [''https://acme.example/careers'', ''https://acme.example/jobs'']"
proof -
  let ?u = "''https://acme.example''"
  let ?resp = "\<lparr>status_code = 200, content = ''repeated''\<rparr>"
  have h: "homepage repeated_site ''Acme'' (Some ?u) = Some ?u" by (simp add: homepage_def)
  have g: "session_get repeated_site ?u = Inr ?resp" by (simp add: repeated_site_def fixture_def)
  have p: "html_anchors repeated_site (content ?resp) = Inr repeated_page"
    by (simp add: repeated_site_def fixture_def)
  have rel: "relevant_links repeated_site repeated_page =
      [link ''/careers'' ''Careers'', link ''/jobs'' ''Jobs'', link ''/careers'' ''Work with us'']"
    by (simp add: relevant_links_def is_career_link_def career_keywords_def link_def
        get_text_def strip_def is_space_def
        repeated_page_def repeated_site_def fixture_def ascii_lower_def)
  have res: "\<forall>a \<in> set (relevant_links repeated_site repeated_page).
           \<exists>h full. attr_href a = Some h \<and> urljoin repeated_site ?u h = Inr full"
    unfolding rel by (simp add: link_def repeated_site_def fixture_def urljoin_simple_def)
  have ne: "relevant_links repeated_site repeated_page \<noteq> []" unfolding rel by simp
  have urls: "resolved_urls repeated_site ?u (relevant_links repeated_site repeated_page) =
     [''https://acme.example/careers'', ''https://acme.example/jobs'', ''https://acme.example/careers'']"
    unfolding rel by (simp add: resolved_urls_def link_def repeated_site_def fixture_def urljoin_simple_def)
  note t = duplicates_kept_once_within_first_three [OF h g p res ne]
  from t [THEN conjunct1]
  have "career_urls (snd (find_career_page repeated_site ''Acme'' (Some ?u))) =
     [''https://acme.example/careers'', ''https://acme.example/jobs'']"
    unfolding urls by simp
  with urls show ?thesis by (intro conjI)
qed

text \<open>
  C6 as the specification words it fails beyond the third distinct URL: two relevant
  anchors resolve to \<^verbatim>\<open>/d-jobs\<close>, the fourth distinct URL of the page, and \<^verbatim>\<open>career_urls\<close>
  contains it not once but never. It also fails when \<^verbatim>\<open>urljoin\<close> raises on a later
  anchor: two relevant anchors resolve to \<^verbatim>\<open>/careers\<close>, the third one's reference raises
  \<^verbatim>\<open>ValueError\<close>, the outer handler returns, and \<^verbatim>\<open>career_urls\<close> is empty.
\<close>

theorem fourth_url_twice_dropped_counterexample:
  "resolved_urls four_jobs_site ''https://acme.example'' (relevant_links four_jobs_site four_jobs_page) =
     [''https://acme.example/a-jobs'', ''https://acme.example/b-jobs'', ''https://acme.example/c-jobs'',
      ''https://acme.example/d-jobs'', ''https://acme.example/d-jobs''] \<and>
   career_urls (snd (find_career_page four_jobs_site ''Acme'' (Some ''https://acme.example''))) =
     [''https://acme.example/a-jobs'', ''https://acme.example/b-jobs'', ''https://acme.example/c-jobs''] \<and>
   count_list (career_urls (snd (find_career_page four_jobs_site ''Acme'' (Some ''https://acme.example''))))
     ''https://acme.example/d-jobs'' = 0 \<and>
   relevant_links broken_ref_site broken_ref_page = broken_ref_page \<and>
   resolved_urls broken_ref_site ''https://acme.example'' broken_ref_page =
     [''https://acme.example/careers'', ''https://acme.example/careers''] \<and>
   urljoin broken_ref_site ''https://acme.example'' ''//[jobs'' = Inl ValueError \<and>
   career_urls (snd (find_career_page broken_ref_site ''Acme'' (Some ''https://acme.example''))) = []"
proof -
  let ?u = "''https://acme.example''"
  let ?resp = "\<lparr>status_code = 200, content = ''four''\<rparr>"
  have h: "homepage four_jobs_site ''Acme'' (Some ?u) = Some ?u" by (simp add: homepage_def)
  have g: "session_get four_jobs_site ?u = Inr ?resp" by (simp add: four_jobs_site_def fixture_def)
  have p: "html_anchors four_jobs_site (content ?resp) = Inr four_jobs_page"
    by (simp add: four_jobs_site_def fixture_def)
  have rel: "relevant_links four_jobs_site four_jobs_page =
     [link ''/a-jobs'' ''Sales'', link ''/b-jobs'' ''Research'', link ''/c-jobs'' ''Support'',
      link ''/d-jobs'' ''Design'', link ''/d-jobs'' ''Design (again)'']"
    by (simp add: relevant_links_def is_career_link_def career_keywords_def link_def
        get_text_def strip_def is_space_def
        four_jobs_page_def four_jobs_site_def fixture_def ascii_lower_def)
  have res: "\<forall>a \<in> set (relevant_links four_jobs_site four_jobs_page).
           \<exists>h full. attr_href a = Some h \<and> urljoin four_jobs_site ?u h = Inr full"
    unfolding rel by (simp add: link_def four_jobs_site_def fixture_def urljoin_simple_def)
  have ne: "relevant_links four_jobs_site four_jobs_page \<noteq> []" unfolding rel by simp
  have urls: "resolved_urls four_jobs_site ?u (relevant_links four_jobs_site four_jobs_page) =
     [''https://acme.example/a-jobs'', ''https://acme.example/b-jobs'', ''https://acme.example/c-jobs'',
      ''https://acme.example/d-jobs'', ''https://acme.example/d-jobs'']"
    unfolding rel by (simp add: resolved_urls_def link_def four_jobs_site_def fixture_def urljoin_simple_def)
  have cu: "career_urls (snd (find_career_page four_jobs_site ''Acme'' (Some ?u))) =
     [''https://acme.example/a-jobs'', ''https://acme.example/b-jobs'', ''https://acme.example/c-jobs'']"
    unfolding scan_then_cut [OF h g p res ne] urls by simp
  have zero: "count_list (career_urls (snd (find_career_page four_jobs_site ''Acme'' (Some ?u))))
     ''https://acme.example/d-jobs'' = 0"
    unfolding cu by simp
  let ?resp' = "\<lparr>status_code = 200, content = ''broken''\<rparr>"
  have h': "homepage broken_ref_site ''Acme'' (Some ?u) = Some ?u" by (simp add: homepage_def)
  have g': "session_get broken_ref_site ?u = Inr ?resp'"
    by (simp add: broken_ref_site_def fixture_def)
  have p': "html_anchors broken_ref_site (content ?resp') = Inr broken_ref_page"
    by (simp add: broken_ref_site_def fixture_def)
  have rel': "relevant_links broken_ref_site broken_ref_page = broken_ref_page"
    by (simp add: relevant_links_def is_career_link_def career_keywords_def link_def
        get_text_def strip_def is_space_def
        broken_ref_page_def broken_ref_site_def fixture_def ascii_lower_def)
  have urls': "resolved_urls broken_ref_site ?u broken_ref_page =
     [''https://acme.example/careers'', ''https://acme.example/careers'']"
    by (simp add: resolved_urls_def link_def broken_ref_page_def broken_ref_site_def fixture_def
        urljoin_simple_def)
  have j: "urljoin broken_ref_site ?u ''//[jobs'' = Inl ValueError"
    by (simp add: broken_ref_site_def fixture_def)
  have j': "urljoin broken_ref_site ?u ''/careers'' = Inr ''https://acme.example/careers''"
    by (simp add: broken_ref_site_def fixture_def urljoin_simple_def)
  have ne': "relevant_links broken_ref_site broken_ref_page \<noteq> []"
    unfolding rel' by (simp add: broken_ref_page_def)
  have c: "is_career_link broken_ref_site (link ''/careers'' ''Careers'')"
      "is_career_link broken_ref_site (link ''/careers'' ''Join us'')"
      "is_career_link broken_ref_site (link ''//[jobs'' ''Jobs'')"
    by (simp_all add: is_career_link_def career_keywords_def link_def
        get_text_def strip_def is_space_def broken_ref_site_def fixture_def ascii_lower_def)
  have hr: "attr_href (link x t) = Some x" for x t by (simp add: link_def)
  have "scan_links broken_ref_site ?u broken_ref_page [] = Inl ValueError"
    by (simp add: broken_ref_page_def c hr j j')
  then have "scan_links broken_ref_site ?u (relevant_links broken_ref_site broken_ref_page) [] =
          Inl ValueError"
    by (simp only: rel')
  then have "scan_links broken_ref_site ?u (filter (\<lambda>a. attr_href a \<noteq> None) broken_ref_page) [] =
          Inl ValueError"
    unfolding relevant_links_def by (simp only: scan_links_skips_others [symmetric])
  with fetch_and_scan_found(2) [OF g' p' ne', of "''Acme''"] find_career_page_via(2) [OF h']
  have cu': "career_urls (snd (find_career_page broken_ref_site ''Acme'' (Some ?u))) = []"
    by simp
  show ?thesis by (intro conjI urls cu zero rel' urls' j cu')
qed

end
